theory Spec2Isabelle
  imports Main "HOL-Library.AList"
begin

section \<open>Values, objects and errors\<close>

text \<open>
  The index client (\<^verbatim>\<open>src/indexes.ts\<close>) is TypeScript: its types are erased at run time
  and most of its arguments are handed on to the transport untouched. Values are therefore
  modelled as one datatype of JavaScript values. Numbers are the integral ones
  (\<open>JNum\<close>); a \<open>Date\<close> object is its time value in milliseconds, \<open>None\<close> for an
  invalid date. An object is the list of its properties in creation order; where a list
  names a key twice the later entry counts, as in an object literal.
\<close>

datatype jsval =
    JUndefined
  | JNull
  | JBool bool
  | JNum int
  | JStr string
  | JArr "jsval list"
  | JObj "(string \<times> jsval) list"
  | JDate "int option"

type_synonym object = "(string \<times> jsval) list"

text \<open>
  \<open>MeiliSearchError\<close> is the error the client itself throws; \<open>TypeError\<close> is the one the
  language raises (a property of \<open>undefined\<close>, a call of something that is no function, a
  property created on a primitive in strict mode); \<open>Rejected\<close> is whatever a collaborator
  (transport, task client) threw. \<open>OutsideModel\<close> marks the one situation the value type
  cannot express: a named property stored on an array or a date.
\<close>

datatype error =
    MeiliSearchError string
  | TypeError
  | Rejected jsval
  | OutsideModel

definition get_prop :: "object \<Rightarrow> string \<Rightarrow> jsval" where
  "get_prop obj k = (case map_of (rev obj) k of None \<Rightarrow> JUndefined | Some v \<Rightarrow> v)"

definition set_prop :: "object \<Rightarrow> string \<times> jsval \<Rightarrow> object" where
  "set_prop obj kv = AList.update (fst kv) (snd kv) obj"

text \<open>An object literal \<^verbatim>\<open>{k1: v1, ...o, k2: v2}\<close>: the entries are stored left to right,
  a repeated key keeps its place and takes the later value.\<close>

definition object_literal :: "object \<Rightarrow> object" where
  "object_literal es = foldl set_prop [] es"

text \<open>\<^verbatim>\<open>...o\<close> for an optional object: \<open>undefined\<close> contributes nothing.\<close>

definition spread :: "object option \<Rightarrow> object" where
  "spread o_opt = (case o_opt of None \<Rightarrow> [] | Some obj \<Rightarrow> obj)"

text \<open>\<^verbatim>\<open>o?.k\<close> for an optional object.\<close>

definition opt_prop :: "object option \<Rightarrow> string \<Rightarrow> jsval" where
  "opt_prop o_opt k = (case o_opt of None \<Rightarrow> JUndefined | Some obj \<Rightarrow> get_prop obj k)"

text \<open>
  Modelled from the spec: \<^verbatim>\<open>removeUndefinedFromObject\<close> (\<^verbatim>\<open>src/utils.ts\<close>, not part of
  the sources at hand) is one of the "serialization utility helpers"; as its name says, it
  returns the object without the properties whose value is \<open>undefined\<close>.
\<close>

definition removeUndefinedFromObject :: "object \<Rightarrow> object" where
  "removeUndefinedFromObject obj = filter (\<lambda>kv. snd kv \<noteq> JUndefined) (object_literal obj)"

section \<open>Collaborators\<close>

datatype Method = GET | POST | PUT | PATCH | DELETE

record HttpRequest =
  rq_method :: Method
  rq_url :: string
  rq_data :: jsval
  rq_params :: jsval
  rq_config :: jsval

text \<open>The world outside the handle: the requests issued so far, oldest first.\<close>

type_synonym World = "HttpRequest list"

text \<open>
  \<^verbatim>\<open>HttpRequests\<close>, \<^verbatim>\<open>TaskClient\<close> and the language's own \<open>Date\<close> parser and
  \<open>ToString\<close> are not code of \<^verbatim>\<open>indexes.ts\<close>; they are parameters. The transport answers
  a request, given everything sent before it, with a decoded body or an error.
\<close>

record Env =
  transport :: "World \<Rightarrow> HttpRequest \<Rightarrow> error + jsval"
  tasks_getTasks :: "jsval \<Rightarrow> World \<Rightarrow> (error + jsval) \<times> World"
  tasks_getTask :: "jsval \<Rightarrow> World \<Rightarrow> (error + jsval) \<times> World"
  tasks_waitForTasks :: "jsval list \<Rightarrow> jsval \<Rightarrow> World \<Rightarrow> (error + jsval list) \<times> World"
  tasks_waitForTask :: "jsval \<Rightarrow> jsval \<Rightarrow> World \<Rightarrow> (error + jsval) \<times> World"
  Date_parse :: "string \<Rightarrow> int option"
  ToString :: "jsval \<Rightarrow> string"

definition http_send :: "Env \<Rightarrow> HttpRequest \<Rightarrow> World \<Rightarrow> (error + jsval) \<times> World" where
  "http_send env r w = (transport env w r, w @ [r])"

definition httpRequest_get :: "Env \<Rightarrow> string \<Rightarrow> jsval \<Rightarrow> jsval \<Rightarrow> World \<Rightarrow> (error + jsval) \<times> World" where
  "httpRequest_get env url params config =
     http_send env \<lparr>rq_method = GET, rq_url = url, rq_data = JUndefined, rq_params = params, rq_config = config\<rparr>"

definition httpRequest_post :: "Env \<Rightarrow> string \<Rightarrow> jsval \<Rightarrow> jsval \<Rightarrow> jsval \<Rightarrow> World \<Rightarrow> (error + jsval) \<times> World" where
  "httpRequest_post env url dat params config =
     http_send env \<lparr>rq_method = POST, rq_url = url, rq_data = dat, rq_params = params, rq_config = config\<rparr>"

definition httpRequest_put :: "Env \<Rightarrow> string \<Rightarrow> jsval \<Rightarrow> jsval \<Rightarrow> jsval \<Rightarrow> World \<Rightarrow> (error + jsval) \<times> World" where
  "httpRequest_put env url dat params config =
     http_send env \<lparr>rq_method = PUT, rq_url = url, rq_data = dat, rq_params = params, rq_config = config\<rparr>"

definition httpRequest_patch :: "Env \<Rightarrow> string \<Rightarrow> jsval \<Rightarrow> jsval \<Rightarrow> jsval \<Rightarrow> World \<Rightarrow> (error + jsval) \<times> World" where
  "httpRequest_patch env url dat params config =
     http_send env \<lparr>rq_method = PATCH, rq_url = url, rq_data = dat, rq_params = params, rq_config = config\<rparr>"

definition httpRequest_delete :: "Env \<Rightarrow> string \<Rightarrow> jsval \<Rightarrow> jsval \<Rightarrow> jsval \<Rightarrow> World \<Rightarrow> (error + jsval) \<times> World" where
  "httpRequest_delete env url dat params config =
     http_send env \<lparr>rq_method = DELETE, rq_url = url, rq_data = dat, rq_params = params, rq_config = config\<rparr>"

section \<open>Language primitives used by the client\<close>

fun join_strings :: "string \<Rightarrow> string list \<Rightarrow> string" where
  "join_strings sep [] = []"
| "join_strings sep [x] = x"
| "join_strings sep (x # y # ys) = x @ sep @ join_strings sep (y # ys)"

text \<open>\<^verbatim>\<open>Array.prototype.join\<close>: \<open>undefined\<close> and \<open>null\<close> elements give the empty string, a
  string is itself, anything else goes through \<open>ToString\<close>.\<close>

definition join_elem :: "Env \<Rightarrow> jsval \<Rightarrow> string" where
  "join_elem env v = (case v of JUndefined \<Rightarrow> [] | JNull \<Rightarrow> [] | JStr s \<Rightarrow> s | _ \<Rightarrow> ToString env v)"

definition Array_join :: "Env \<Rightarrow> jsval list \<Rightarrow> string \<Rightarrow> string" where
  "Array_join env xs sep = join_strings sep (map (join_elem env) xs)"

text \<open>\<^verbatim>\<open>v?.join(',')\<close>: nothing for \<open>undefined\<close> and \<open>null\<close>, the joined string for an
  array, a \<open>TypeError\<close> for any other value (it has no \<open>join\<close> to call).\<close>

definition opt_join :: "Env \<Rightarrow> jsval \<Rightarrow> error + jsval" where
  "opt_join env v =
     (case v of JUndefined \<Rightarrow> Inr JUndefined | JNull \<Rightarrow> Inr JUndefined
      | JArr xs \<Rightarrow> Inr (JStr (Array_join env xs '',''))
      | _ \<Rightarrow> Inl TypeError)"

definition bind_err :: "error + 'a \<Rightarrow> ('a \<Rightarrow> error + 'b) \<Rightarrow> error + 'b" where
  "bind_err m f = (case m of Inl e \<Rightarrow> Inl e | Inr x \<Rightarrow> f x)"

section \<open>The index handle\<close>

record Index =
  uid :: string
  primaryKey :: jsval
  createdAt :: jsval
  updatedAt :: jsval

subsection \<open>Search\<close>

definition search :: "Env \<Rightarrow> Index \<Rightarrow> jsval \<Rightarrow> object option \<Rightarrow> jsval \<Rightarrow> World \<Rightarrow> (error + jsval) \<times> World" where
  "search env this query options config w =
     httpRequest_post env (''indexes/'' @ uid this @ ''/search'')
       (JObj (removeUndefinedFromObject (object_literal ((''q'', query) # spread options))))
       JUndefined config w"

definition parseFilter :: "jsval \<Rightarrow> error + jsval" where
  "parseFilter flt =
     (case flt of
        JStr s \<Rightarrow> Inr (JStr s)
      | JArr xs \<Rightarrow> Inl (MeiliSearchError
          ''The filter query parameter should be in string format when using searchGet'')
      | _ \<Rightarrow> Inr JUndefined)"

definition getParams :: "Env \<Rightarrow> jsval \<Rightarrow> object option \<Rightarrow> error + object" where
  "getParams env query options =
     bind_err (parseFilter (opt_prop options ''filter'')) (\<lambda>f.
     bind_err (opt_join env (opt_prop options ''sort'')) (\<lambda>s.
     bind_err (opt_join env (opt_prop options ''facets'')) (\<lambda>fa.
     bind_err (opt_join env (opt_prop options ''attributesToRetrieve'')) (\<lambda>ar.
     bind_err (opt_join env (opt_prop options ''attributesToCrop'')) (\<lambda>ac.
     bind_err (opt_join env (opt_prop options ''attributesToHighlight'')) (\<lambda>ah.
       Inr (object_literal ((''q'', query) # spread options @
         [(''filter'', f), (''sort'', s), (''facets'', fa), (''attributesToRetrieve'', ar),
          (''attributesToCrop'', ac), (''attributesToHighlight'', ah)]))))))))"

definition searchGet :: "Env \<Rightarrow> Index \<Rightarrow> jsval \<Rightarrow> object option \<Rightarrow> jsval \<Rightarrow> World \<Rightarrow> (error + jsval) \<times> World" where
  "searchGet env this query options config w =
     (case getParams env query options of
        Inl e \<Rightarrow> (Inl e, w)
      | Inr ps \<Rightarrow> httpRequest_get env (''indexes/'' @ uid this @ ''/search'')
                   (JObj (removeUndefinedFromObject ps)) config w)"


subsection \<open>Reading and writing properties, dates\<close>

text \<open>
  \<^verbatim>\<open>v.k\<close> for one of the keys the client reads (\<^verbatim>\<open>primaryKey\<close>, \<^verbatim>\<open>createdAt\<close>,
  \<^verbatim>\<open>updatedAt\<close>, \<^verbatim>\<open>enqueuedAt\<close>, \<^verbatim>\<open>taskUid\<close>, \<^verbatim>\<open>indexUid\<close>, \<^verbatim>\<open>status\<close>,
  \<^verbatim>\<open>type\<close>; none is a built-in property of a string, number, array or date):
  \<open>undefined\<close> and \<open>null\<close> raise, any other value that is no object has no such property.
\<close>

definition read_prop :: "jsval \<Rightarrow> string \<Rightarrow> error + jsval" where
  "read_prop v k =
     (case v of
        JObj obj \<Rightarrow> Inr (get_prop obj k)
      | JUndefined \<Rightarrow> Inl TypeError
      | JNull \<Rightarrow> Inl TypeError
      | _ \<Rightarrow> Inr JUndefined)"

text \<open>\<^verbatim>\<open>v.k = x\<close> in strict mode (the file starts with \<^verbatim>\<open>'use strict'\<close>).\<close>

definition write_prop :: "jsval \<Rightarrow> string \<Rightarrow> jsval \<Rightarrow> error + jsval" where
  "write_prop v k x =
     (case v of
        JObj obj \<Rightarrow> Inr (JObj (object_literal (obj @ [(k, x)])))
      | JArr xs \<Rightarrow> Inl OutsideModel
      | JDate d \<Rightarrow> Inl OutsideModel
      | _ \<Rightarrow> Inl TypeError)"

text \<open>\<^verbatim>\<open>new Date(v)\<close>: a string is parsed, a date is copied, other primitives are taken as
  a number of milliseconds (out of range: invalid), an array or object goes through its
  string form.\<close>

definition new_Date :: "Env \<Rightarrow> jsval \<Rightarrow> jsval" where
  "new_Date env v =
     (case v of
        JStr s \<Rightarrow> JDate (Date_parse env s)
      | JDate d \<Rightarrow> JDate d
      | JNum n \<Rightarrow> JDate (if \<bar>n\<bar> \<le> 8640000000000000 then Some n else None)
      | JUndefined \<Rightarrow> JDate None
      | JNull \<Rightarrow> JDate (Some 0)
      | JBool b \<Rightarrow> JDate (Some (if b then 1 else 0))
      | _ \<Rightarrow> JDate (Date_parse env (ToString env v)))"

text \<open>The statement \<^verbatim>\<open>task.target = new Date(task.source)\<close>, followed by
  \<^verbatim>\<open>return task\<close>.\<close>

definition assign_Date :: "Env \<Rightarrow> string \<Rightarrow> string \<Rightarrow> jsval \<Rightarrow> error + jsval" where
  "assign_Date env target source task =
     bind_err (read_prop task source) (\<lambda>v. write_prop task target (new_Date env v))"

text \<open>
  Modelled from the spec: the class \<^verbatim>\<open>EnqueuedTask\<close> (\<^verbatim>\<open>src/enqueued-task.ts\<close>, not part
  of the sources at hand). The spec gives its fields, "taskUid, indexUid, status, type,
  enqueuedAt: timestamp", built from the raw task descriptor, and asks that timestamps
  "arrive as ISO-8601 strings and must be parsed into the language's native
  representation".
\<close>

definition new_EnqueuedTask :: "Env \<Rightarrow> jsval \<Rightarrow> error + jsval" where
  "new_EnqueuedTask env task =
     bind_err (read_prop task ''taskUid'') (\<lambda>tu.
     bind_err (read_prop task ''indexUid'') (\<lambda>iu.
     bind_err (read_prop task ''status'') (\<lambda>st.
     bind_err (read_prop task ''type'') (\<lambda>ty.
     bind_err (read_prop task ''enqueuedAt'') (\<lambda>ea.
       Inr (JObj [(''taskUid'', tu), (''indexUid'', iu), (''status'', st), (''type'', ty),
                  (''enqueuedAt'', new_Date env ea)]))))))"

text \<open>\<^verbatim>\<open>const task = await request; return f(task)\<close>: an error of the request is the
  error of the call.\<close>

definition after :: "(error + jsval) \<times> World \<Rightarrow> (jsval \<Rightarrow> error + jsval) \<Rightarrow> (error + jsval) \<times> World" where
  "after r f = (case r of (Inl e, w) \<Rightarrow> (Inl e, w) | (Inr v, w) \<Rightarrow> (f v, w))"

text \<open>A template literal \<^verbatim>\<open>${v}\<close>.\<close>

definition template :: "Env \<Rightarrow> jsval \<Rightarrow> string" where
  "template env v = (case v of JStr s \<Rightarrow> s | _ \<Rightarrow> ToString env v)"

subsection \<open>Index\<close>

definition getRawInfo :: "Env \<Rightarrow> Index \<Rightarrow> World \<Rightarrow> (error + jsval) \<times> Index \<times> World" where
  "getRawInfo env this w =
     (case httpRequest_get env (''indexes/'' @ uid this) JUndefined JUndefined w of
        (Inl e, w') \<Rightarrow> (Inl e, this, w')
      | (Inr res, w') \<Rightarrow>
          (case read_prop res ''primaryKey'' of
             Inl e \<Rightarrow> (Inl e, this, w')
           | Inr pk \<Rightarrow>
               (case read_prop res ''updatedAt'' of
                  Inl e \<Rightarrow> (Inl e, this\<lparr>primaryKey := pk\<rparr>, w')
                | Inr ua \<Rightarrow>
                    (case read_prop res ''createdAt'' of
                       Inl e \<Rightarrow> (Inl e, this\<lparr>primaryKey := pk, updatedAt := new_Date env ua\<rparr>, w')
                     | Inr ca \<Rightarrow>
                         (Inr res,
                          this\<lparr>primaryKey := pk, updatedAt := new_Date env ua,
                               createdAt := new_Date env ca\<rparr>, w')))))"

definition fetchInfo :: "Env \<Rightarrow> Index \<Rightarrow> World \<Rightarrow> (error + Index) \<times> Index \<times> World" where
  "fetchInfo env this w =
     (case getRawInfo env this w of
        (Inl e, this', w') \<Rightarrow> (Inl e, this', w')
      | (Inr res, this', w') \<Rightarrow> (Inr this', this', w'))"

definition fetchPrimaryKey :: "Env \<Rightarrow> Index \<Rightarrow> World \<Rightarrow> (error + jsval) \<times> Index \<times> World" where
  "fetchPrimaryKey env this w =
     (case getRawInfo env this w of
        (Inl e, this', w') \<Rightarrow> (Inl e, this', w')
      | (Inr res, this', w') \<Rightarrow>
          (case read_prop res ''primaryKey'' of
             Inl e \<Rightarrow> (Inl e, this', w')
           | Inr pk \<Rightarrow> (Inr pk, this'\<lparr>primaryKey := pk\<rparr>, w')))"

text \<open>The static \<^verbatim>\<open>Index.create\<close>: it builds its own transport from \<^verbatim>\<open>config\<close>; the
  model sends through the one transport there is.\<close>

definition create :: "Env \<Rightarrow> string \<Rightarrow> object option \<Rightarrow> World \<Rightarrow> (error + jsval) \<times> World" where
  "create env uid' options w =
     after (httpRequest_post env ''indexes''
              (JObj (object_literal (spread options @ [(''uid'', JStr uid')])))
              JUndefined JUndefined w)
       (new_EnqueuedTask env)"

definition update :: "Env \<Rightarrow> Index \<Rightarrow> jsval \<Rightarrow> World \<Rightarrow> (error + jsval) \<times> World" where
  "update env this dat w =
     after (httpRequest_patch env (''indexes/'' @ uid this) dat JUndefined JUndefined w)
       (assign_Date env ''enqueuedAt'' ''enqueuedAt'')"

definition delete :: "Env \<Rightarrow> Index \<Rightarrow> World \<Rightarrow> (error + jsval) \<times> World" where
  "delete env this w =
     after (httpRequest_delete env (''indexes/'' @ uid this) JUndefined JUndefined JUndefined w)
       (new_EnqueuedTask env)"

subsection \<open>Tasks\<close>

definition getTasks :: "Env \<Rightarrow> Index \<Rightarrow> object option \<Rightarrow> World \<Rightarrow> (error + jsval) \<times> World" where
  "getTasks env this parameters w =
     tasks_getTasks env
       (JObj (object_literal (spread parameters @ [(''indexUids'', JArr [JStr (uid this)])]))) w"

definition getTask :: "Env \<Rightarrow> Index \<Rightarrow> jsval \<Rightarrow> World \<Rightarrow> (error + jsval) \<times> World" where
  "getTask env this taskUid w = tasks_getTask env taskUid w"

text \<open>A destructured parameter \<^verbatim>\<open>{ k = d }: WaitOptions = {}\<close>: the default stands in
  when the argument is missing or its property \<open>k\<close> is \<open>undefined\<close>.\<close>

definition destructure_default :: "object option \<Rightarrow> string \<Rightarrow> jsval \<Rightarrow> jsval" where
  "destructure_default o_opt k d = (if opt_prop o_opt k = JUndefined then d else opt_prop o_opt k)"

definition waitForTasks :: "Env \<Rightarrow> Index \<Rightarrow> jsval list \<Rightarrow> object option \<Rightarrow> World \<Rightarrow> (error + jsval list) \<times> World" where
  "waitForTasks env this taskUids waitOptions w =
     tasks_waitForTasks env taskUids
       (JObj [(''timeOutMs'', destructure_default waitOptions ''timeOutMs'' (JNum 5000)),
              (''intervalMs'', destructure_default waitOptions ''intervalMs'' (JNum 50))]) w"

definition waitForTask :: "Env \<Rightarrow> Index \<Rightarrow> jsval \<Rightarrow> object option \<Rightarrow> World \<Rightarrow> (error + jsval) \<times> World" where
  "waitForTask env this taskUid waitOptions w =
     tasks_waitForTask env taskUid
       (JObj [(''timeOutMs'', destructure_default waitOptions ''timeOutMs'' (JNum 5000)),
              (''intervalMs'', destructure_default waitOptions ''intervalMs'' (JNum 50))]) w"

subsection \<open>Stats\<close>

definition getStats :: "Env \<Rightarrow> Index \<Rightarrow> World \<Rightarrow> (error + jsval) \<times> World" where
  "getStats env this w =
     httpRequest_get env (''indexes/'' @ uid this @ ''/stats'') JUndefined JUndefined w"


subsection \<open>Documents\<close>

text \<open>The immediately invoked function that computes \<^verbatim>\<open>fields\<close> in
  \<^verbatim>\<open>getDocuments\<close> and \<^verbatim>\<open>getDocument\<close>.\<close>

definition fields_param :: "Env \<Rightarrow> object option \<Rightarrow> jsval" where
  "fields_param env parameters =
     (case opt_prop parameters ''fields'' of
        JArr xs \<Rightarrow> JStr (Array_join env xs '','')
      | _ \<Rightarrow> JUndefined)"

definition getDocuments :: "Env \<Rightarrow> Index \<Rightarrow> object option \<Rightarrow> World \<Rightarrow> (error + jsval) \<times> World" where
  "getDocuments env this parameters w =
     httpRequest_get env (''indexes/'' @ uid this @ ''/documents'')
       (JObj (removeUndefinedFromObject
          (object_literal (spread parameters @ [(''fields'', fields_param env parameters)]))))
       JUndefined w"

definition getDocument :: "Env \<Rightarrow> Index \<Rightarrow> jsval \<Rightarrow> object option \<Rightarrow> World \<Rightarrow> (error + jsval) \<times> World" where
  "getDocument env this documentId parameters w =
     httpRequest_get env (''indexes/'' @ uid this @ ''/documents/'' @ template env documentId)
       (JObj (removeUndefinedFromObject
          (object_literal (spread parameters @ [(''fields'', fields_param env parameters)]))))
       JUndefined w"

definition addDocuments :: "Env \<Rightarrow> Index \<Rightarrow> jsval list \<Rightarrow> jsval \<Rightarrow> World \<Rightarrow> (error + jsval) \<times> World" where
  "addDocuments env this documents options w =
     after (httpRequest_post env (''indexes/'' @ uid this @ ''/documents'')
              (JArr documents) options JUndefined w)
       (new_EnqueuedTask env)"

definition addDocumentsFromString :: "Env \<Rightarrow> Index \<Rightarrow> jsval \<Rightarrow> jsval \<Rightarrow> jsval \<Rightarrow> World \<Rightarrow> (error + jsval) \<times> World" where
  "addDocumentsFromString env this documents contentType queryParams w =
     after (httpRequest_post env (''indexes/'' @ uid this @ ''/documents'')
              documents queryParams
              (JObj [(''headers'', JObj [(''Content-Type'', contentType)])]) w)
       (new_EnqueuedTask env)"

text \<open>\<^verbatim>\<open>Array.prototype.slice(start, end)\<close> on integral arguments: a negative index
  counts from the end, both are clamped to the array, an empty range gives \<open>[]\<close>.\<close>

definition Array_slice :: "'a list \<Rightarrow> int \<Rightarrow> int \<Rightarrow> 'a list" where
  "Array_slice xs start fin =
     (let len = int (length xs);
          k = (if start < 0 then max (len + start) 0 else min start len);
          final = (if fin < 0 then max (len + fin) 0 else min fin len)
      in take (nat (final - k)) (drop (nat k) xs))"

definition updateDocuments :: "Env \<Rightarrow> Index \<Rightarrow> jsval list \<Rightarrow> jsval \<Rightarrow> World \<Rightarrow> (error + jsval) \<times> World" where
  "updateDocuments env this documents options w =
     after (httpRequest_put env (''indexes/'' @ uid this @ ''/documents'')
              (JArr documents) options JUndefined w)
       (new_EnqueuedTask env)"

text \<open>
  \<^verbatim>\<open>addDocumentsInBatches\<close> and \<^verbatim>\<open>updateDocumentsInBatches\<close> run the same loop,
  \<^verbatim>\<open>for (let i = 0; i < documents.length; i += batchSize)
    updates.push(await this.send(documents.slice(i, i + batchSize), options))\<close>,
  the first with \<^verbatim>\<open>addDocuments\<close> for \<open>send\<close>, the second with
  \<^verbatim>\<open>updateDocuments\<close>. The loop carries the index \<open>i\<close>, the array \<open>updates\<close> and the
  world. Nothing bounds the number of rounds, so a run that never leaves the loop is the
  value \<open>None\<close>.
\<close>

partial_function (option) inBatches_loop ::
  "(jsval list \<Rightarrow> jsval \<Rightarrow> World \<Rightarrow> (error + jsval) \<times> World) \<Rightarrow> jsval list \<Rightarrow> int \<Rightarrow> jsval
     \<Rightarrow> int \<Rightarrow> jsval list \<Rightarrow> World \<Rightarrow> ((error + jsval) \<times> World) option" where
  "inBatches_loop send documents batchSize options i updates w =
     (if i < int (length documents) then
        (case send (Array_slice documents i (i + batchSize)) options w of
           (Inl e, w') \<Rightarrow> Some (Inl e, w')
         | (Inr t, w') \<Rightarrow>
             inBatches_loop send documents batchSize options (i + batchSize) (updates @ [t]) w')
      else Some (Inr (JArr updates), w))"

declare inBatches_loop.simps [code]

text \<open>The value of \<open>i\<close> at the start of round \<open>k\<close> of that loop: \<^verbatim>\<open>let i = 0\<close>, and
  \<^verbatim>\<open>i += batchSize\<close> after each round.\<close>

fun loop_index :: "int \<Rightarrow> nat \<Rightarrow> int" where
  "loop_index batchSize 0 = 0"
| "loop_index batchSize (Suc k) = loop_index batchSize k + batchSize"

text \<open>\<^verbatim>\<open>batchSize = 1000\<close>: the default of a missing argument.\<close>

definition addDocumentsInBatches ::
  "Env \<Rightarrow> Index \<Rightarrow> jsval list \<Rightarrow> int option \<Rightarrow> jsval \<Rightarrow> World \<Rightarrow> ((error + jsval) \<times> World) option" where
  "addDocumentsInBatches env this documents batchSize options w =
     inBatches_loop (addDocuments env this) documents
       (case batchSize of None \<Rightarrow> 1000 | Some b \<Rightarrow> b) options 0 [] w"

definition updateDocumentsInBatches ::
  "Env \<Rightarrow> Index \<Rightarrow> jsval list \<Rightarrow> int option \<Rightarrow> jsval \<Rightarrow> World \<Rightarrow> ((error + jsval) \<times> World) option" where
  "updateDocumentsInBatches env this documents batchSize options w =
     inBatches_loop (updateDocuments env this) documents
       (case batchSize of None \<Rightarrow> 1000 | Some b \<Rightarrow> b) options 0 [] w"

definition updateDocumentsFromString :: "Env \<Rightarrow> Index \<Rightarrow> jsval \<Rightarrow> jsval \<Rightarrow> jsval \<Rightarrow> World \<Rightarrow> (error + jsval) \<times> World" where
  "updateDocumentsFromString env this documents contentType queryParams w =
     after (httpRequest_put env (''indexes/'' @ uid this @ ''/documents'')
              documents queryParams
              (JObj [(''headers'', JObj [(''Content-Type'', contentType)])]) w)
       (new_EnqueuedTask env)"

definition deleteDocument :: "Env \<Rightarrow> Index \<Rightarrow> jsval \<Rightarrow> World \<Rightarrow> (error + jsval) \<times> World" where
  "deleteDocument env this documentId w =
     after (httpRequest_delete env
              (''indexes/'' @ uid this @ ''/documents/'' @ template env documentId)
              JUndefined JUndefined JUndefined w)
       (assign_Date env ''enqueuedAt'' ''enqueuedAt'')"

definition deleteDocuments :: "Env \<Rightarrow> Index \<Rightarrow> jsval \<Rightarrow> World \<Rightarrow> (error + jsval) \<times> World" where
  "deleteDocuments env this documentsIds w =
     after (httpRequest_post env (''indexes/'' @ uid this @ ''/documents/delete-batch'')
              documentsIds JUndefined JUndefined w)
       (new_EnqueuedTask env)"

definition deleteAllDocuments :: "Env \<Rightarrow> Index \<Rightarrow> World \<Rightarrow> (error + jsval) \<times> World" where
  "deleteAllDocuments env this w =
     after (httpRequest_delete env (''indexes/'' @ uid this @ ''/documents'')
              JUndefined JUndefined JUndefined w)
       (assign_Date env ''enqueuedAt'' ''enqueuedAt'')"


subsection \<open>Settings\<close>

definition getSettings :: "Env \<Rightarrow> Index \<Rightarrow> World \<Rightarrow> (error + jsval) \<times> World" where
  "getSettings env this w =
     httpRequest_get env (''indexes/'' @ uid this @ ''/settings'') JUndefined JUndefined w"

text \<open>\<^verbatim>\<open>updateSettings\<close> stores the parsed date under \<^verbatim>\<open>enqueued\<close>:
  \<^verbatim>\<open>task.enqueued = new Date(task.enqueuedAt)\<close>.\<close>

definition updateSettings :: "Env \<Rightarrow> Index \<Rightarrow> jsval \<Rightarrow> World \<Rightarrow> (error + jsval) \<times> World" where
  "updateSettings env this settings w =
     after (httpRequest_patch env (''indexes/'' @ uid this @ ''/settings'')
              settings JUndefined JUndefined w)
       (assign_Date env ''enqueued'' ''enqueuedAt'')"

definition resetSettings :: "Env \<Rightarrow> Index \<Rightarrow> World \<Rightarrow> (error + jsval) \<times> World" where
  "resetSettings env this w =
     after (httpRequest_delete env (''indexes/'' @ uid this @ ''/settings'')
              JUndefined JUndefined JUndefined w)
       (assign_Date env ''enqueuedAt'' ''enqueuedAt'')"

definition getPagination :: "Env \<Rightarrow> Index \<Rightarrow> World \<Rightarrow> (error + jsval) \<times> World" where
  "getPagination env this w =
     httpRequest_get env (''indexes/'' @ uid this @ ''/settings/pagination'') JUndefined JUndefined w"

definition updatePagination :: "Env \<Rightarrow> Index \<Rightarrow> jsval \<Rightarrow> World \<Rightarrow> (error + jsval) \<times> World" where
  "updatePagination env this pagination w =
     after (httpRequest_patch env (''indexes/'' @ uid this @ ''/settings/pagination'')
              pagination JUndefined JUndefined w)
       (new_EnqueuedTask env)"

definition resetPagination :: "Env \<Rightarrow> Index \<Rightarrow> World \<Rightarrow> (error + jsval) \<times> World" where
  "resetPagination env this w =
     after (httpRequest_delete env (''indexes/'' @ uid this @ ''/settings/pagination'')
              JUndefined JUndefined JUndefined w)
       (new_EnqueuedTask env)"

definition getSynonyms :: "Env \<Rightarrow> Index \<Rightarrow> World \<Rightarrow> (error + jsval) \<times> World" where
  "getSynonyms env this w =
     httpRequest_get env (''indexes/'' @ uid this @ ''/settings/synonyms'') JUndefined JUndefined w"

definition updateSynonyms :: "Env \<Rightarrow> Index \<Rightarrow> jsval \<Rightarrow> World \<Rightarrow> (error + jsval) \<times> World" where
  "updateSynonyms env this synonyms w =
     after (httpRequest_put env (''indexes/'' @ uid this @ ''/settings/synonyms'')
              synonyms JUndefined JUndefined w)
       (new_EnqueuedTask env)"

definition resetSynonyms :: "Env \<Rightarrow> Index \<Rightarrow> World \<Rightarrow> (error + jsval) \<times> World" where
  "resetSynonyms env this w =
     after (httpRequest_delete env (''indexes/'' @ uid this @ ''/settings/synonyms'')
              JUndefined JUndefined JUndefined w)
       (assign_Date env ''enqueuedAt'' ''enqueuedAt'')"

definition getStopWords :: "Env \<Rightarrow> Index \<Rightarrow> World \<Rightarrow> (error + jsval) \<times> World" where
  "getStopWords env this w =
     httpRequest_get env (''indexes/'' @ uid this @ ''/settings/stop-words'') JUndefined JUndefined w"

definition updateStopWords :: "Env \<Rightarrow> Index \<Rightarrow> jsval \<Rightarrow> World \<Rightarrow> (error + jsval) \<times> World" where
  "updateStopWords env this stopWords w =
     after (httpRequest_put env (''indexes/'' @ uid this @ ''/settings/stop-words'')
              stopWords JUndefined JUndefined w)
       (new_EnqueuedTask env)"

definition resetStopWords :: "Env \<Rightarrow> Index \<Rightarrow> World \<Rightarrow> (error + jsval) \<times> World" where
  "resetStopWords env this w =
     after (httpRequest_delete env (''indexes/'' @ uid this @ ''/settings/stop-words'')
              JUndefined JUndefined JUndefined w)
       (assign_Date env ''enqueuedAt'' ''enqueuedAt'')"

definition getRankingRules :: "Env \<Rightarrow> Index \<Rightarrow> World \<Rightarrow> (error + jsval) \<times> World" where
  "getRankingRules env this w =
     httpRequest_get env (''indexes/'' @ uid this @ ''/settings/ranking-rules'') JUndefined JUndefined w"

definition updateRankingRules :: "Env \<Rightarrow> Index \<Rightarrow> jsval \<Rightarrow> World \<Rightarrow> (error + jsval) \<times> World" where
  "updateRankingRules env this rankingRules w =
     after (httpRequest_put env (''indexes/'' @ uid this @ ''/settings/ranking-rules'')
              rankingRules JUndefined JUndefined w)
       (new_EnqueuedTask env)"

definition resetRankingRules :: "Env \<Rightarrow> Index \<Rightarrow> World \<Rightarrow> (error + jsval) \<times> World" where
  "resetRankingRules env this w =
     after (httpRequest_delete env (''indexes/'' @ uid this @ ''/settings/ranking-rules'')
              JUndefined JUndefined JUndefined w)
       (assign_Date env ''enqueuedAt'' ''enqueuedAt'')"

definition getDistinctAttribute :: "Env \<Rightarrow> Index \<Rightarrow> World \<Rightarrow> (error + jsval) \<times> World" where
  "getDistinctAttribute env this w =
     httpRequest_get env (''indexes/'' @ uid this @ ''/settings/distinct-attribute'') JUndefined JUndefined w"

definition updateDistinctAttribute :: "Env \<Rightarrow> Index \<Rightarrow> jsval \<Rightarrow> World \<Rightarrow> (error + jsval) \<times> World" where
  "updateDistinctAttribute env this distinctAttribute w =
     after (httpRequest_put env (''indexes/'' @ uid this @ ''/settings/distinct-attribute'')
              distinctAttribute JUndefined JUndefined w)
       (new_EnqueuedTask env)"

definition resetDistinctAttribute :: "Env \<Rightarrow> Index \<Rightarrow> World \<Rightarrow> (error + jsval) \<times> World" where
  "resetDistinctAttribute env this w =
     after (httpRequest_delete env (''indexes/'' @ uid this @ ''/settings/distinct-attribute'')
              JUndefined JUndefined JUndefined w)
       (assign_Date env ''enqueuedAt'' ''enqueuedAt'')"

definition getFilterableAttributes :: "Env \<Rightarrow> Index \<Rightarrow> World \<Rightarrow> (error + jsval) \<times> World" where
  "getFilterableAttributes env this w =
     httpRequest_get env (''indexes/'' @ uid this @ ''/settings/filterable-attributes'') JUndefined JUndefined w"

definition updateFilterableAttributes :: "Env \<Rightarrow> Index \<Rightarrow> jsval \<Rightarrow> World \<Rightarrow> (error + jsval) \<times> World" where
  "updateFilterableAttributes env this filterableAttributes w =
     after (httpRequest_put env (''indexes/'' @ uid this @ ''/settings/filterable-attributes'')
              filterableAttributes JUndefined JUndefined w)
       (new_EnqueuedTask env)"

definition resetFilterableAttributes :: "Env \<Rightarrow> Index \<Rightarrow> World \<Rightarrow> (error + jsval) \<times> World" where
  "resetFilterableAttributes env this w =
     after (httpRequest_delete env (''indexes/'' @ uid this @ ''/settings/filterable-attributes'')
              JUndefined JUndefined JUndefined w)
       (assign_Date env ''enqueuedAt'' ''enqueuedAt'')"

definition getSortableAttributes :: "Env \<Rightarrow> Index \<Rightarrow> World \<Rightarrow> (error + jsval) \<times> World" where
  "getSortableAttributes env this w =
     httpRequest_get env (''indexes/'' @ uid this @ ''/settings/sortable-attributes'') JUndefined JUndefined w"

definition updateSortableAttributes :: "Env \<Rightarrow> Index \<Rightarrow> jsval \<Rightarrow> World \<Rightarrow> (error + jsval) \<times> World" where
  "updateSortableAttributes env this sortableAttributes w =
     after (httpRequest_put env (''indexes/'' @ uid this @ ''/settings/sortable-attributes'')
              sortableAttributes JUndefined JUndefined w)
       (new_EnqueuedTask env)"

definition resetSortableAttributes :: "Env \<Rightarrow> Index \<Rightarrow> World \<Rightarrow> (error + jsval) \<times> World" where
  "resetSortableAttributes env this w =
     after (httpRequest_delete env (''indexes/'' @ uid this @ ''/settings/sortable-attributes'')
              JUndefined JUndefined JUndefined w)
       (assign_Date env ''enqueuedAt'' ''enqueuedAt'')"

definition getSearchableAttributes :: "Env \<Rightarrow> Index \<Rightarrow> World \<Rightarrow> (error + jsval) \<times> World" where
  "getSearchableAttributes env this w =
     httpRequest_get env (''indexes/'' @ uid this @ ''/settings/searchable-attributes'') JUndefined JUndefined w"

definition updateSearchableAttributes :: "Env \<Rightarrow> Index \<Rightarrow> jsval \<Rightarrow> World \<Rightarrow> (error + jsval) \<times> World" where
  "updateSearchableAttributes env this searchableAttributes w =
     after (httpRequest_put env (''indexes/'' @ uid this @ ''/settings/searchable-attributes'')
              searchableAttributes JUndefined JUndefined w)
       (new_EnqueuedTask env)"

definition resetSearchableAttributes :: "Env \<Rightarrow> Index \<Rightarrow> World \<Rightarrow> (error + jsval) \<times> World" where
  "resetSearchableAttributes env this w =
     after (httpRequest_delete env (''indexes/'' @ uid this @ ''/settings/searchable-attributes'')
              JUndefined JUndefined JUndefined w)
       (assign_Date env ''enqueuedAt'' ''enqueuedAt'')"

definition getDisplayedAttributes :: "Env \<Rightarrow> Index \<Rightarrow> World \<Rightarrow> (error + jsval) \<times> World" where
  "getDisplayedAttributes env this w =
     httpRequest_get env (''indexes/'' @ uid this @ ''/settings/displayed-attributes'') JUndefined JUndefined w"

definition updateDisplayedAttributes :: "Env \<Rightarrow> Index \<Rightarrow> jsval \<Rightarrow> World \<Rightarrow> (error + jsval) \<times> World" where
  "updateDisplayedAttributes env this displayedAttributes w =
     after (httpRequest_put env (''indexes/'' @ uid this @ ''/settings/displayed-attributes'')
              displayedAttributes JUndefined JUndefined w)
       (new_EnqueuedTask env)"

definition resetDisplayedAttributes :: "Env \<Rightarrow> Index \<Rightarrow> World \<Rightarrow> (error + jsval) \<times> World" where
  "resetDisplayedAttributes env this w =
     after (httpRequest_delete env (''indexes/'' @ uid this @ ''/settings/displayed-attributes'')
              JUndefined JUndefined JUndefined w)
       (assign_Date env ''enqueuedAt'' ''enqueuedAt'')"

definition getTypoTolerance :: "Env \<Rightarrow> Index \<Rightarrow> World \<Rightarrow> (error + jsval) \<times> World" where
  "getTypoTolerance env this w =
     httpRequest_get env (''indexes/'' @ uid this @ ''/settings/typo-tolerance'') JUndefined JUndefined w"

definition updateTypoTolerance :: "Env \<Rightarrow> Index \<Rightarrow> jsval \<Rightarrow> World \<Rightarrow> (error + jsval) \<times> World" where
  "updateTypoTolerance env this typoTolerance w =
     after (httpRequest_patch env (''indexes/'' @ uid this @ ''/settings/typo-tolerance'')
              typoTolerance JUndefined JUndefined w)
       (assign_Date env ''enqueuedAt'' ''enqueuedAt'')"

definition resetTypoTolerance :: "Env \<Rightarrow> Index \<Rightarrow> World \<Rightarrow> (error + jsval) \<times> World" where
  "resetTypoTolerance env this w =
     after (httpRequest_delete env (''indexes/'' @ uid this @ ''/settings/typo-tolerance'')
              JUndefined JUndefined JUndefined w)
       (assign_Date env ''enqueuedAt'' ''enqueuedAt'')"

definition getFaceting :: "Env \<Rightarrow> Index \<Rightarrow> World \<Rightarrow> (error + jsval) \<times> World" where
  "getFaceting env this w =
     httpRequest_get env (''indexes/'' @ uid this @ ''/settings/faceting'') JUndefined JUndefined w"

definition updateFaceting :: "Env \<Rightarrow> Index \<Rightarrow> jsval \<Rightarrow> World \<Rightarrow> (error + jsval) \<times> World" where
  "updateFaceting env this faceting w =
     after (httpRequest_patch env (''indexes/'' @ uid this @ ''/settings/faceting'')
              faceting JUndefined JUndefined w)
       (new_EnqueuedTask env)"

definition resetFaceting :: "Env \<Rightarrow> Index \<Rightarrow> World \<Rightarrow> (error + jsval) \<times> World" where
  "resetFaceting env this w =
     after (httpRequest_delete env (''indexes/'' @ uid this @ ''/settings/faceting'')
              JUndefined JUndefined JUndefined w)
       (new_EnqueuedTask env)"


section \<open>The operations of a handle, as one interpreter\<close>

datatype Setting =
    AllSettings | Pagination | Synonyms | StopWords | RankingRules | DistinctAttribute
  | FilterableAttributes | SortableAttributes | SearchableAttributes | DisplayedAttributes
  | TypoTolerance | Faceting

fun getter :: "Setting \<Rightarrow> Env \<Rightarrow> Index \<Rightarrow> World \<Rightarrow> (error + jsval) \<times> World" where
  "getter AllSettings = getSettings"
| "getter Pagination = getPagination"
| "getter Synonyms = getSynonyms"
| "getter StopWords = getStopWords"
| "getter RankingRules = getRankingRules"
| "getter DistinctAttribute = getDistinctAttribute"
| "getter FilterableAttributes = getFilterableAttributes"
| "getter SortableAttributes = getSortableAttributes"
| "getter SearchableAttributes = getSearchableAttributes"
| "getter DisplayedAttributes = getDisplayedAttributes"
| "getter TypoTolerance = getTypoTolerance"
| "getter Faceting = getFaceting"

fun updater :: "Setting \<Rightarrow> Env \<Rightarrow> Index \<Rightarrow> jsval \<Rightarrow> World \<Rightarrow> (error + jsval) \<times> World" where
  "updater AllSettings = updateSettings"
| "updater Pagination = updatePagination"
| "updater Synonyms = updateSynonyms"
| "updater StopWords = updateStopWords"
| "updater RankingRules = updateRankingRules"
| "updater DistinctAttribute = updateDistinctAttribute"
| "updater FilterableAttributes = updateFilterableAttributes"
| "updater SortableAttributes = updateSortableAttributes"
| "updater SearchableAttributes = updateSearchableAttributes"
| "updater DisplayedAttributes = updateDisplayedAttributes"
| "updater TypoTolerance = updateTypoTolerance"
| "updater Faceting = updateFaceting"

fun resetter :: "Setting \<Rightarrow> Env \<Rightarrow> Index \<Rightarrow> World \<Rightarrow> (error + jsval) \<times> World" where
  "resetter AllSettings = resetSettings"
| "resetter Pagination = resetPagination"
| "resetter Synonyms = resetSynonyms"
| "resetter StopWords = resetStopWords"
| "resetter RankingRules = resetRankingRules"
| "resetter DistinctAttribute = resetDistinctAttribute"
| "resetter FilterableAttributes = resetFilterableAttributes"
| "resetter SortableAttributes = resetSortableAttributes"
| "resetter SearchableAttributes = resetSearchableAttributes"
| "resetter DisplayedAttributes = resetDisplayedAttributes"
| "resetter TypoTolerance = resetTypoTolerance"
| "resetter Faceting = resetFaceting"

datatype IndexOp =
    Search jsval "object option" jsval
  | SearchGet jsval "object option" jsval
  | GetRawInfo
  | FetchInfo
  | FetchPrimaryKey
  | Create string "object option"
  | Update jsval
  | Delete
  | GetTasks "object option"
  | GetTask jsval
  | WaitForTasks "jsval list" "object option"
  | WaitForTask jsval "object option"
  | GetStats
  | GetDocuments "object option"
  | GetDocument jsval "object option"
  | AddDocuments "jsval list" jsval
  | AddDocumentsFromString jsval jsval jsval
  | AddDocumentsInBatches "jsval list" "int option" jsval
  | UpdateDocuments "jsval list" jsval
  | UpdateDocumentsInBatches "jsval list" "int option" jsval
  | UpdateDocumentsFromString jsval jsval jsval
  | DeleteDocument jsval
  | DeleteDocuments jsval
  | DeleteAllDocuments
  | GetSetting Setting
  | UpdateSetting Setting jsval
  | ResetSetting Setting

text \<open>What a call gives back: a value, or (\<^verbatim>\<open>fetchInfo\<close>) the handle itself.\<close>

datatype Result = Value jsval | Handle Index

text \<open>A method that assigns nothing to \<^verbatim>\<open>this\<close> leaves the handle as it found it.\<close>

definition keep :: "Index \<Rightarrow> (error + jsval) \<times> World \<Rightarrow> ((error + Result) \<times> Index \<times> World) option" where
  "keep this r = Some (map_sum id Value (fst r), this, snd r)"

fun exec :: "Env \<Rightarrow> IndexOp \<Rightarrow> Index \<Rightarrow> World \<Rightarrow> ((error + Result) \<times> Index \<times> World) option" where
  "exec env (Search query options config) this w = keep this (search env this query options config w)"
| "exec env (SearchGet query options config) this w = keep this (searchGet env this query options config w)"
| "exec env GetRawInfo this w =
     (case getRawInfo env this w of (r, this', w') \<Rightarrow> Some (map_sum id Value r, this', w'))"
| "exec env FetchInfo this w =
     (case fetchInfo env this w of (r, this', w') \<Rightarrow> Some (map_sum id Handle r, this', w'))"
| "exec env FetchPrimaryKey this w =
     (case fetchPrimaryKey env this w of (r, this', w') \<Rightarrow> Some (map_sum id Value r, this', w'))"
| "exec env (Create uid' options) this w = keep this (create env uid' options w)"
| "exec env (Update dat) this w = keep this (update env this dat w)"
| "exec env Delete this w = keep this (delete env this w)"
| "exec env (GetTasks parameters) this w = keep this (getTasks env this parameters w)"
| "exec env (GetTask taskUid) this w = keep this (getTask env this taskUid w)"
| "exec env (WaitForTasks taskUids waitOptions) this w =
     (case waitForTasks env this taskUids waitOptions w of
        (r, w') \<Rightarrow> Some (map_sum id (\<lambda>ts. Value (JArr ts)) r, this, w'))"
| "exec env (WaitForTask taskUid waitOptions) this w = keep this (waitForTask env this taskUid waitOptions w)"
| "exec env GetStats this w = keep this (getStats env this w)"
| "exec env (GetDocuments parameters) this w = keep this (getDocuments env this parameters w)"
| "exec env (GetDocument documentId parameters) this w = keep this (getDocument env this documentId parameters w)"
| "exec env (AddDocuments documents options) this w = keep this (addDocuments env this documents options w)"
| "exec env (AddDocumentsFromString documents contentType queryParams) this w =
     keep this (addDocumentsFromString env this documents contentType queryParams w)"
| "exec env (AddDocumentsInBatches documents batchSize options) this w =
     Option.bind (addDocumentsInBatches env this documents batchSize options w) (keep this)"
| "exec env (UpdateDocuments documents options) this w = keep this (updateDocuments env this documents options w)"
| "exec env (UpdateDocumentsInBatches documents batchSize options) this w =
     Option.bind (updateDocumentsInBatches env this documents batchSize options w) (keep this)"
| "exec env (UpdateDocumentsFromString documents contentType queryParams) this w =
     keep this (updateDocumentsFromString env this documents contentType queryParams w)"
| "exec env (DeleteDocument documentId) this w = keep this (deleteDocument env this documentId w)"
| "exec env (DeleteDocuments documentsIds) this w = keep this (deleteDocuments env this documentsIds w)"
| "exec env DeleteAllDocuments this w = keep this (deleteAllDocuments env this w)"
| "exec env (GetSetting s) this w = keep this (getter s env this w)"
| "exec env (UpdateSetting s v) this w = keep this (updater s env this v w)"
| "exec env (ResetSetting s) this w = keep this (resetter s env this w)"


section \<open>The task client's wait for several tasks\<close>

text \<open>
  Modelled from the spec: \<^verbatim>\<open>TaskClient.waitForTasks\<close> (\<^verbatim>\<open>src/task.ts\<close>, not part of the
  sources at hand; \<^verbatim>\<open>Index.waitForTasks\<close> only delegates to it). The spec: it "applies
  \<open>waitForTask\<close> to each id sequentially (not concurrently) and collects results in input
  order", and "a timeout on any task aborts the whole wait call immediately with that
  task's timeout error; it does not wait for the remaining tasks". The wait for one task is
  the parameter \<open>wait\<close>; it reads and changes the world (it polls the server).
\<close>

fun TaskClient_waitForTasks ::
  "(jsval \<Rightarrow> jsval \<Rightarrow> World \<Rightarrow> (error + jsval) \<times> World) \<Rightarrow> jsval list \<Rightarrow> jsval \<Rightarrow> World
     \<Rightarrow> (error + jsval list) \<times> World" where
  "TaskClient_waitForTasks wait [] options w = (Inr [], w)"
| "TaskClient_waitForTasks wait (taskUid # rest) options w =
     (case wait taskUid options w of
        (Inl e, w') \<Rightarrow> (Inl e, w')
      | (Inr task, w') \<Rightarrow>
          (case TaskClient_waitForTasks wait rest options w' of
             (Inl e, w'') \<Rightarrow> (Inl e, w'')
           | (Inr tasks, w'') \<Rightarrow> (Inr (task # tasks), w'')))"

section \<open>The chunks of a batch, in the words of the specification\<close>

text \<open>"ceil(n/b) contiguous chunks where chunk k is the slice [k*b, k*b+b)".\<close>

definition batch_chunks :: "'a list \<Rightarrow> nat \<Rightarrow> 'a list list" where
  "batch_chunks xs b = map (\<lambda>k. take b (drop (k * b) xs)) [0 ..< (length xs + b - 1) div b]"

section \<open>A sample environment\<close>

text \<open>
  A server that answers every \<open>GET\<close> with the description of the index \<^verbatim>\<open>movies\<close> and
  every other request with a task descriptor numbered by the requests sent before it; a
  task client whose waits poll once and find the task succeeded; a date parser that knows
  the three timestamps used. \<open>ToString\<close> is not exercised by the examples.
\<close>

definition sample_transport :: "World \<Rightarrow> HttpRequest \<Rightarrow> error + jsval" where
  "sample_transport w r =
     (if rq_method r = GET then
        Inr (JObj [(''uid'', JStr ''movies''), (''primaryKey'', JStr ''id''),
                   (''createdAt'', JStr ''2022-01-01T00:00:00Z''),
                   (''updatedAt'', JStr ''2022-02-01T00:00:00Z'')])
      else
        Inr (JObj [(''taskUid'', JNum (int (length w))), (''indexUid'', JStr ''movies''),
                   (''status'', JStr ''enqueued''), (''type'', JStr ''settingsUpdate''),
                   (''enqueuedAt'', JStr ''2022-03-01T00:00:00Z'')]))"

definition sample_Date_parse :: "string \<Rightarrow> int option" where
  "sample_Date_parse s =
     (if s = ''2022-01-01T00:00:00Z'' then Some 1640995200000
      else if s = ''2022-02-01T00:00:00Z'' then Some 1643673600000
      else if s = ''2022-03-01T00:00:00Z'' then Some 1646092800000
      else None)"

definition sample_wait :: "jsval \<Rightarrow> jsval \<Rightarrow> World \<Rightarrow> (error + jsval) \<times> World" where
  "sample_wait taskUid options w =
     (Inr (JObj [(''uid'', taskUid), (''status'', JStr ''succeeded'')]),
      w @ [\<lparr>rq_method = GET, rq_url = ''tasks'', rq_data = JUndefined,
             rq_params = JObj [(''uids'', taskUid)], rq_config = options\<rparr>])"

definition sample_env :: Env where
  "sample_env =
     \<lparr>transport = sample_transport,
      tasks_getTasks = (\<lambda>q w. (Inr (JObj [(''query'', q)]), w)),
      tasks_getTask = (\<lambda>u w. (Inr (JObj [(''uid'', u)]), w)),
      tasks_waitForTasks = TaskClient_waitForTasks sample_wait,
      tasks_waitForTask = sample_wait,
      Date_parse = sample_Date_parse,
      ToString = (\<lambda>v. [])\<rparr>"

definition movies :: Index where
  "movies = \<lparr>uid = ''movies'', primaryKey = JUndefined, createdAt = JUndefined, updatedAt = JUndefined\<rparr>"

text \<open>A transport that is down: every request is rejected.\<close>

definition down_env :: Env where
  "down_env = sample_env\<lparr>transport := (\<lambda>w r. Inl (Rejected (JStr ''unreachable'')))\<rparr>"


section \<open>Declared types of the search options\<close>

text \<open>
  \<^verbatim>\<open>SearchParams\<close> declares \<^verbatim>\<open>sort\<close>, \<^verbatim>\<open>facets\<close>, \<^verbatim>\<open>attributesToRetrieve\<close>,
  \<^verbatim>\<open>attributesToCrop\<close> and \<^verbatim>\<open>attributesToHighlight\<close> as optional string arrays.
  \<open>array_params_typed\<close> holds of options that respect this far enough for
  \<^verbatim>\<open>?.join(',')\<close> to be applicable: each of the five is an array or missing.
\<close>

definition joinable :: "jsval \<Rightarrow> bool" where
  "joinable v = (case v of JUndefined \<Rightarrow> True | JNull \<Rightarrow> True | JArr xs \<Rightarrow> True | _ \<Rightarrow> False)"

definition array_params :: "string list" where
  "array_params =
     [''sort'', ''facets'', ''attributesToRetrieve'', ''attributesToCrop'', ''attributesToHighlight'']"

definition array_params_typed :: "object option \<Rightarrow> bool" where
  "array_params_typed options = list_all (\<lambda>k. joinable (opt_prop options k)) array_params"

section \<open>What the GET search sends for one option\<close>

text \<open>The value \<^verbatim>\<open>parseFilter\<close> returns when it returns, and the value of
  \<^verbatim>\<open>v?.join(',')\<close> when it is applicable.\<close>

definition filter_out :: "jsval \<Rightarrow> jsval" where
  "filter_out v = (case v of JStr s \<Rightarrow> JStr s | _ \<Rightarrow> JUndefined)"

definition join_out :: "Env \<Rightarrow> jsval \<Rightarrow> jsval" where
  "join_out env v = (case v of JArr xs \<Rightarrow> JStr (Array_join env xs '','') | _ \<Rightarrow> JUndefined)"

section \<open>Tables read off the methods\<close>

text \<open>The path of a settings sub-resource below \<^verbatim>\<open>indexes/{uid}/settings\<close>, as the
  three methods of each setting spell it.\<close>

fun subresource :: "Setting \<Rightarrow> string" where
  "subresource AllSettings = []"
| "subresource Pagination = ''/pagination''"
| "subresource Synonyms = ''/synonyms''"
| "subresource StopWords = ''/stop-words''"
| "subresource RankingRules = ''/ranking-rules''"
| "subresource DistinctAttribute = ''/distinct-attribute''"
| "subresource FilterableAttributes = ''/filterable-attributes''"
| "subresource SortableAttributes = ''/sortable-attributes''"
| "subresource SearchableAttributes = ''/searchable-attributes''"
| "subresource DisplayedAttributes = ''/displayed-attributes''"
| "subresource TypoTolerance = ''/typo-tolerance''"
| "subresource Faceting = ''/faceting''"

text \<open>The settings whose value is a list (or, for synonyms, a table of lists).\<close>

definition list_valued :: "Setting list" where
  "list_valued =
     [StopWords, Synonyms, RankingRules, FilterableAttributes, SortableAttributes,
      SearchableAttributes, DisplayedAttributes]"

text \<open>The operations declared to return one \<^verbatim>\<open>EnqueuedTask\<close>.\<close>

fun returns_EnqueuedTask :: "IndexOp \<Rightarrow> bool" where
  "returns_EnqueuedTask (Create u options) = True"
| "returns_EnqueuedTask (Update dat) = True"
| "returns_EnqueuedTask Delete = True"
| "returns_EnqueuedTask (AddDocuments documents options) = True"
| "returns_EnqueuedTask (AddDocumentsFromString documents contentType queryParams) = True"
| "returns_EnqueuedTask (UpdateDocuments documents options) = True"
| "returns_EnqueuedTask (UpdateDocumentsFromString documents contentType queryParams) = True"
| "returns_EnqueuedTask (DeleteDocument documentId) = True"
| "returns_EnqueuedTask (DeleteDocuments documentsIds) = True"
| "returns_EnqueuedTask DeleteAllDocuments = True"
| "returns_EnqueuedTask (UpdateSetting s v) = True"
| "returns_EnqueuedTask (ResetSetting s) = True"
| "returns_EnqueuedTask other = False"

text \<open>The three operations that fetch the description of the index.\<close>

definition info_fetch :: "IndexOp \<Rightarrow> bool" where
  "info_fetch op = (op = GetRawInfo \<or> op = FetchInfo \<or> op = FetchPrimaryKey)"

section \<open>Batch ingestion, in the words of the specification\<close>

text \<open>
  "Issues one mutating request per chunk sequentially, and returns one
  \<^verbatim>\<open>EnqueuedTask\<close> per chunk in chunk order": the chunks are sent one after the other,
  each in the world the one before left, and the first error ends the run.
\<close>

fun send_chunks ::
  "(jsval list \<Rightarrow> jsval \<Rightarrow> World \<Rightarrow> (error + jsval) \<times> World) \<Rightarrow> jsval list list \<Rightarrow> jsval \<Rightarrow> World
     \<Rightarrow> (error + jsval list) \<times> World" where
  "send_chunks send [] options w = (Inr [], w)"
| "send_chunks send (c # cs) options w =
     (case send c options w of
        (Inl e, w') \<Rightarrow> (Inl e, w')
      | (Inr t, w') \<Rightarrow>
          (case send_chunks send cs options w' of
             (Inl e, w'') \<Rightarrow> (Inl e, w'')
           | (Inr ts, w'') \<Rightarrow> (Inr (t # ts), w'')))"

text \<open>The tasks of the chunks still to send come after the ones already collected.\<close>

definition collected :: "jsval list \<Rightarrow> (error + jsval list) \<times> World \<Rightarrow> (error + jsval) \<times> World" where
  "collected updates r =
     (case r of (Inl e, w) \<Rightarrow> (Inl e, w) | (Inr ts, w) \<Rightarrow> (Inr (JArr (updates @ ts)), w))"

text \<open>The request \<^verbatim>\<open>addDocuments\<close> (\<open>POST\<close>) or \<^verbatim>\<open>updateDocuments\<close> (\<open>PUT\<close>) sends
  for one chunk.\<close>

definition chunk_request :: "Method \<Rightarrow> Index \<Rightarrow> jsval \<Rightarrow> jsval list \<Rightarrow> HttpRequest" where
  "chunk_request m this options c =
     \<lparr>rq_method = m, rq_url = ''indexes/'' @ uid this @ ''/documents'', rq_data = JArr c,
      rq_params = options, rq_config = JUndefined\<rparr>"

text \<open>A server that answers every request with an object.\<close>

definition answers_objects :: "Env \<Rightarrow> bool" where
  "answers_objects env = (\<forall>w r. \<exists>obj. transport env w r = Inr (JObj obj))"


section \<open>Objects: lookup after literals, spreads and the removal of undefined\<close>

lemma map_of_set_prop: "map_of (set_prop acc (k, v)) = (map_of acc)(k \<mapsto> v)"
  by (simp add: set_prop_def update_conv')

lemma map_of_foldl_set_prop:
  "map_of (foldl set_prop acc es) k = (case map_of (rev es) k of Some v \<Rightarrow> Some v | None \<Rightarrow> map_of acc k)"
proof (induction es arbitrary: acc)
  case Nil
  then show ?case by simp
next
  case (Cons e es)
  obtain a b where e: "e = (a, b)" by (cases e)
  show ?case
    unfolding foldl_Cons Cons.IH e map_of_set_prop
    by (auto simp: map_add_def split: option.splits)
qed

lemma distinct_set_prop: "distinct (map fst acc) \<Longrightarrow> distinct (map fst (set_prop acc e))"
  by (simp add: set_prop_def distinct_update)

lemma distinct_foldl_set_prop:
  "distinct (map fst acc) \<Longrightarrow> distinct (map fst (foldl set_prop acc es))"
  by (induction es arbitrary: acc) (simp_all add: distinct_set_prop)

lemma distinct_object_literal: "distinct (map fst (object_literal es))"
  by (simp add: object_literal_def distinct_foldl_set_prop)

lemma map_of_object_literal: "map_of (object_literal es) k = map_of (rev es) k"
  by (simp add: object_literal_def map_of_foldl_set_prop split: option.splits)

lemma map_of_rev_distinct: "distinct (map fst xs) \<Longrightarrow> map_of (rev xs) k = map_of xs k"
proof -
  assume d: "distinct (map fst xs)"
  have "map_of (rev xs) = map_of xs"
    by (rule map_of_inject_set[THEN iffD2]) (use d in \<open>simp_all add: distinct_rev rev_map[symmetric]\<close>)
  then show ?thesis by simp
qed

lemma get_prop_object_literal: "get_prop (object_literal es) k = get_prop es k"
  by (simp add: get_prop_def map_of_rev_distinct distinct_object_literal map_of_object_literal)

lemma map_of_filter_defined:
  "distinct (map fst xs) \<Longrightarrow> map_of (filter (\<lambda>kv. snd kv \<noteq> JUndefined) xs) k =
     (case map_of xs k of Some v \<Rightarrow> (if v = JUndefined then None else Some v) | None \<Rightarrow> None)"
  by (induction xs) (auto split: option.splits simp: map_of_eq_None_iff image_iff)

lemma distinct_removeUndefined: "distinct (map fst (removeUndefinedFromObject es))"
  by (simp add: removeUndefinedFromObject_def distinct_map_filter distinct_object_literal)

lemma get_prop_removeUndefined: "get_prop (removeUndefinedFromObject es) k = get_prop es k"
proof -
  have "get_prop (removeUndefinedFromObject es) k =
        (case map_of (removeUndefinedFromObject es) k of None \<Rightarrow> JUndefined | Some v \<Rightarrow> v)"
    by (simp add: get_prop_def map_of_rev_distinct distinct_removeUndefined)
  also have "\<dots> = (case map_of (object_literal es) k of None \<Rightarrow> JUndefined | Some v \<Rightarrow> v)"
    by (simp add: removeUndefinedFromObject_def map_of_filter_defined distinct_object_literal split: option.splits)
  also have "\<dots> = get_prop es k"
    by (simp add: map_of_object_literal get_prop_def)
  finally show ?thesis .
qed

lemma keys_removeUndefined:
  "k \<in> fst ` set (removeUndefinedFromObject es) \<longleftrightarrow> get_prop es k \<noteq> JUndefined"
proof -
  have "k \<in> fst ` set (removeUndefinedFromObject es) \<longleftrightarrow> map_of (removeUndefinedFromObject es) k \<noteq> None"
    by (simp add: map_of_eq_None_iff)
  also have "\<dots> \<longleftrightarrow> get_prop es k \<noteq> JUndefined"
    by (simp add: removeUndefinedFromObject_def map_of_filter_defined distinct_object_literal
        map_of_object_literal get_prop_def split: option.splits)
  finally show ?thesis .
qed

lemma get_prop_append: "get_prop (xs @ ys) k = (case map_of (rev ys) k of Some v \<Rightarrow> v | None \<Rightarrow> get_prop xs k)"
  by (simp add: get_prop_def map_add_def split: option.splits)


lemma get_prop_Cons_other: "fst e \<noteq> k \<Longrightarrow> get_prop (e # es) k = get_prop es k"
  by (cases e) (simp add: get_prop_def map_add_def split: option.splits)

lemma opt_prop_spread: "get_prop (spread options) k = opt_prop options k"
  by (cases options) (simp_all add: spread_def opt_prop_def get_prop_def)

lemma opt_join_joinable: "joinable v \<Longrightarrow> opt_join env v = Inr (join_out env v)"
  by (cases v) (simp_all add: joinable_def opt_join_def join_out_def)

lemma parseFilter_Arr: "parseFilter (JArr xs) = Inl (MeiliSearchError
          ''The filter query parameter should be in string format when using searchGet'')"
  by (simp add: parseFilter_def)

lemma parseFilter_other: "\<forall>xs. v \<noteq> JArr xs \<Longrightarrow> parseFilter v = Inr (filter_out v)"
  by (cases v) (simp_all add: parseFilter_def filter_out_def)

lemma getParams_typed:
  assumes "\<forall>xs. opt_prop options ''filter'' \<noteq> JArr xs" and "array_params_typed options"
  shows "getParams env query options =
     Inr (object_literal ((''q'', query) # spread options @
         [(''filter'', filter_out (opt_prop options ''filter'')),
          (''sort'', join_out env (opt_prop options ''sort'')),
          (''facets'', join_out env (opt_prop options ''facets'')),
          (''attributesToRetrieve'', join_out env (opt_prop options ''attributesToRetrieve'')),
          (''attributesToCrop'', join_out env (opt_prop options ''attributesToCrop'')),
          (''attributesToHighlight'', join_out env (opt_prop options ''attributesToHighlight''))]))"
  using assms
  by (simp add: getParams_def bind_err_def parseFilter_other opt_join_joinable
      array_params_typed_def array_params_def)

lemma Array_join_strings: "Array_join env (map JStr ss) sep = join_strings sep ss"
  by (simp add: Array_join_def join_elem_def comp_def)

section \<open>The filter of a search\<close>

text \<open>
  C1. A search through \<^verbatim>\<open>searchGet\<close> whose filter is an array raises the client's own
  error, with its message, and sends nothing (the world is unchanged), while
  \<^verbatim>\<open>search\<close> (POST) sends a body that carries the same filter value. When the filter is
  not an array and the array-typed options are typed as declared, \<^verbatim>\<open>searchGet\<close> raises
  nothing of its own: it sends one GET request and its outcome is the transport's; a string
  filter is sent as it is, a missing one is left out.
\<close>

theorem searchGet_filter_guard:
  "(opt_prop options ''filter'' = JArr xs \<longrightarrow>
      searchGet env this query options config w =
        (Inl (MeiliSearchError
          ''The filter query parameter should be in string format when using searchGet''), w)
      \<and> (\<exists>body. search env this query options config w =
            (transport env w \<lparr>rq_method = POST, rq_url = ''indexes/'' @ uid this @ ''/search'',
               rq_data = JObj body, rq_params = JUndefined, rq_config = config\<rparr>,
             w @ [\<lparr>rq_method = POST, rq_url = ''indexes/'' @ uid this @ ''/search'',
               rq_data = JObj body, rq_params = JUndefined, rq_config = config\<rparr>])
          \<and> get_prop body ''filter'' = JArr xs))
   \<and> ((\<forall>ys. opt_prop options ''filter'' \<noteq> JArr ys) \<and> array_params_typed options \<longrightarrow>
      (\<exists>ps. searchGet env this query options config w =
            (transport env w \<lparr>rq_method = GET, rq_url = ''indexes/'' @ uid this @ ''/search'',
               rq_data = JUndefined, rq_params = JObj ps, rq_config = config\<rparr>,
             w @ [\<lparr>rq_method = GET, rq_url = ''indexes/'' @ uid this @ ''/search'',
               rq_data = JUndefined, rq_params = JObj ps, rq_config = config\<rparr>])
          \<and> (\<forall>s. opt_prop options ''filter'' = JStr s \<longrightarrow> get_prop ps ''filter'' = JStr s)
          \<and> (opt_prop options ''filter'' = JUndefined \<longrightarrow> ''filter'' \<notin> fst ` set ps)))"
proof (intro conjI impI)
  assume a: "opt_prop options ''filter'' = JArr xs"
  show "searchGet env this query options config w =
        (Inl (MeiliSearchError
          ''The filter query parameter should be in string format when using searchGet''), w)"
    by (simp add: searchGet_def getParams_def a parseFilter_Arr bind_err_def)
  let ?body = "removeUndefinedFromObject (object_literal ((''q'', query) # spread options))"
  have "get_prop ?body ''filter'' = JArr xs"
    by (simp add: get_prop_removeUndefined get_prop_object_literal get_prop_Cons_other
        opt_prop_spread a)
  then show "\<exists>body. search env this query options config w =
            (transport env w \<lparr>rq_method = POST, rq_url = ''indexes/'' @ uid this @ ''/search'',
               rq_data = JObj body, rq_params = JUndefined, rq_config = config\<rparr>,
             w @ [\<lparr>rq_method = POST, rq_url = ''indexes/'' @ uid this @ ''/search'',
               rq_data = JObj body, rq_params = JUndefined, rq_config = config\<rparr>])
          \<and> get_prop body ''filter'' = JArr xs"
    by (intro exI[of _ ?body]) (simp add: search_def httpRequest_post_def http_send_def)
next
  assume b: "(\<forall>ys. opt_prop options ''filter'' \<noteq> JArr ys) \<and> array_params_typed options"
  let ?full = "(''q'', query) # spread options @
         [(''filter'', filter_out (opt_prop options ''filter'')),
          (''sort'', join_out env (opt_prop options ''sort'')),
          (''facets'', join_out env (opt_prop options ''facets'')),
          (''attributesToRetrieve'', join_out env (opt_prop options ''attributesToRetrieve'')),
          (''attributesToCrop'', join_out env (opt_prop options ''attributesToCrop'')),
          (''attributesToHighlight'', join_out env (opt_prop options ''attributesToHighlight''))]"
  let ?ps = "removeUndefinedFromObject (object_literal ?full)"
  have gp: "getParams env query options = Inr (object_literal ?full)"
    using b by (simp add: getParams_typed)
  have f: "get_prop ?full ''filter'' = filter_out (opt_prop options ''filter'')"
    by (simp add: get_prop_def)
  have 1: "searchGet env this query options config w =
            (transport env w \<lparr>rq_method = GET, rq_url = ''indexes/'' @ uid this @ ''/search'',
               rq_data = JUndefined, rq_params = JObj ?ps, rq_config = config\<rparr>,
             w @ [\<lparr>rq_method = GET, rq_url = ''indexes/'' @ uid this @ ''/search'',
               rq_data = JUndefined, rq_params = JObj ?ps, rq_config = config\<rparr>])"
    by (simp add: searchGet_def gp httpRequest_get_def http_send_def)
  have g: "get_prop ?ps ''filter'' = filter_out (opt_prop options ''filter'')"
    by (simp only: get_prop_removeUndefined get_prop_object_literal f)
  have 2: "\<forall>s. opt_prop options ''filter'' = JStr s \<longrightarrow> get_prop ?ps ''filter'' = JStr s"
  proof (intro allI impI)
    fix s assume "opt_prop options ''filter'' = JStr s"
    then have "filter_out (opt_prop options ''filter'') = JStr s"
      by (simp add: filter_out_def)
    with g show "get_prop ?ps ''filter'' = JStr s" by (simp only:)
  qed
  have 3: "opt_prop options ''filter'' = JUndefined \<longrightarrow> ''filter'' \<notin> fst ` set ?ps"
  proof
    assume "opt_prop options ''filter'' = JUndefined"
    then have "filter_out (opt_prop options ''filter'') = JUndefined"
      by (simp add: filter_out_def)
    with g have "get_prop ?ps ''filter'' = JUndefined" by (simp only:)
    then have "get_prop (object_literal ?full) ''filter'' = JUndefined"
      by (simp only: get_prop_removeUndefined)
    then show "''filter'' \<notin> fst ` set ?ps"
      by (simp only: keys_removeUndefined get_prop_object_literal simp_thms)
  qed
  show "\<exists>ps. searchGet env this query options config w =
            (transport env w \<lparr>rq_method = GET, rq_url = ''indexes/'' @ uid this @ ''/search'',
               rq_data = JUndefined, rq_params = JObj ps, rq_config = config\<rparr>,
             w @ [\<lparr>rq_method = GET, rq_url = ''indexes/'' @ uid this @ ''/search'',
               rq_data = JUndefined, rq_params = JObj ps, rq_config = config\<rparr>])
          \<and> (\<forall>s. opt_prop options ''filter'' = JStr s \<longrightarrow> get_prop ps ''filter'' = JStr s)
          \<and> (opt_prop options ''filter'' = JUndefined \<longrightarrow> ''filter'' \<notin> fst ` set ps)"
    using 1 2 3 by blast
qed


lemma typed_filter_string:
  "array_params_typed (Some [(''filter'', JStr ''genre = scifi'')])"
  by (simp add: array_params_typed_def array_params_def joinable_def opt_prop_def get_prop_def)

theorem searchGet_filter_guard_witness:
  "opt_prop (Some [(''filter'', JArr [JStr ''genre = scifi'', JStr ''year > 2000''])]) ''filter''
      = JArr [JStr ''genre = scifi'', JStr ''year > 2000'']
   \<and> searchGet sample_env movies (JStr ''dune'')
        (Some [(''filter'', JArr [JStr ''genre = scifi'', JStr ''year > 2000''])]) JUndefined [] =
        (Inl (MeiliSearchError
          ''The filter query parameter should be in string format when using searchGet''), [])
   \<and> (\<forall>ys. opt_prop (Some [(''filter'', JStr ''genre = scifi'')]) ''filter'' \<noteq> JArr ys)
   \<and> array_params_typed (Some [(''filter'', JStr ''genre = scifi'')])
   \<and> (\<exists>ps. snd (searchGet sample_env movies (JStr ''dune'')
                (Some [(''filter'', JStr ''genre = scifi'')]) JUndefined []) =
             [\<lparr>rq_method = GET, rq_url = ''indexes/movies/search'', rq_data = JUndefined,
                rq_params = JObj ps, rq_config = JUndefined\<rparr>]
           \<and> get_prop ps ''filter'' = JStr ''genre = scifi'')"
proof -
  have h1: "opt_prop (Some [(''filter'', JArr [JStr ''genre = scifi'', JStr ''year > 2000''])]) ''filter''
      = JArr [JStr ''genre = scifi'', JStr ''year > 2000'']"
    by (simp add: opt_prop_def get_prop_def)
  have h2: "\<forall>ys. opt_prop (Some [(''filter'', JStr ''genre = scifi'')]) ''filter'' \<noteq> JArr ys"
    by (simp add: opt_prop_def get_prop_def)
  have h3: "opt_prop (Some [(''filter'', JStr ''genre = scifi'')]) ''filter'' = JStr ''genre = scifi''"
    by (simp add: opt_prop_def get_prop_def)
  note a = searchGet_filter_guard[of "Some [(''filter'', JArr [JStr ''genre = scifi'', JStr ''year > 2000''])]"
      "[JStr ''genre = scifi'', JStr ''year > 2000'']" sample_env movies "JStr ''dune''" JUndefined "[]",
      THEN conjunct1, rule_format, OF h1, THEN conjunct1]
  note b = searchGet_filter_guard[of "Some [(''filter'', JStr ''genre = scifi'')]" "[]"
      sample_env movies "JStr ''dune''" JUndefined "[]",
      THEN conjunct2, rule_format, OF conjI[OF h2 typed_filter_string]]
  from b obtain ps where
    ps: "searchGet sample_env movies (JStr ''dune'') (Some [(''filter'', JStr ''genre = scifi'')]) JUndefined [] =
            (transport sample_env [] \<lparr>rq_method = GET, rq_url = ''indexes/'' @ uid movies @ ''/search'',
               rq_data = JUndefined, rq_params = JObj ps, rq_config = JUndefined\<rparr>,
             [] @ [\<lparr>rq_method = GET, rq_url = ''indexes/'' @ uid movies @ ''/search'',
               rq_data = JUndefined, rq_params = JObj ps, rq_config = JUndefined\<rparr>])"
    and f: "\<forall>s. opt_prop (Some [(''filter'', JStr ''genre = scifi'')]) ''filter'' = JStr s \<longrightarrow>
              get_prop ps ''filter'' = JStr s"
    by blast
  from f h3 have "get_prop ps ''filter'' = JStr ''genre = scifi''" by blast
  moreover from ps have "snd (searchGet sample_env movies (JStr ''dune'')
                (Some [(''filter'', JStr ''genre = scifi'')]) JUndefined []) =
             [\<lparr>rq_method = GET, rq_url = ''indexes/movies/search'', rq_data = JUndefined,
                rq_params = JObj ps, rq_config = JUndefined\<rparr>]"
    by (simp add: movies_def)
  ultimately show ?thesis using a h1 h2 typed_filter_string by blast
qed


section \<open>Array parameters of the GET requests\<close>

lemma get_prop_getParams_array:
  assumes "k \<in> set array_params"
  shows "get_prop ((''q'', query) # spread options @
         [(''filter'', f),
          (''sort'', join_out env (opt_prop options ''sort'')),
          (''facets'', join_out env (opt_prop options ''facets'')),
          (''attributesToRetrieve'', join_out env (opt_prop options ''attributesToRetrieve'')),
          (''attributesToCrop'', join_out env (opt_prop options ''attributesToCrop'')),
          (''attributesToHighlight'', join_out env (opt_prop options ''attributesToHighlight''))]) k
       = join_out env (opt_prop options k)"
  using assms by (auto simp: array_params_def get_prop_def)

lemma join_out_strings: "join_out env (JArr (map JStr ss)) = JStr (join_strings '','' ss)"
  by (simp add: join_out_def Array_join_strings)

lemma join_out_undefined: "join_out env JUndefined = JUndefined"
  by (simp add: join_out_def)

lemma fields_param_strings:
  "opt_prop parameters ''fields'' = JArr (map JStr ss) \<Longrightarrow>
     fields_param env parameters = JStr (join_strings '','' ss)"
  by (simp add: fields_param_def Array_join_strings)

lemma fields_param_undefined:
  "opt_prop parameters ''fields'' = JUndefined \<Longrightarrow> fields_param env parameters = JUndefined"
  by (simp add: fields_param_def)

lemma get_prop_fields:
  "get_prop (removeUndefinedFromObject (object_literal (spread parameters @ [(''fields'', v)]))) ''fields'' = v"
  by (simp add: get_prop_removeUndefined get_prop_object_literal get_prop_append)

lemma fields_query:
  "(\<forall>ss. opt_prop parameters ''fields'' = JArr (map JStr ss) \<longrightarrow>
       get_prop (removeUndefinedFromObject (object_literal
          (spread parameters @ [(''fields'', fields_param env parameters)]))) ''fields''
         = JStr (join_strings '','' ss))
   \<and> (opt_prop parameters ''fields'' = JUndefined \<longrightarrow>
       ''fields'' \<notin> fst ` set (removeUndefinedFromObject (object_literal
          (spread parameters @ [(''fields'', fields_param env parameters)]))))"
proof (intro conjI allI impI)
  fix ss assume "opt_prop parameters ''fields'' = JArr (map JStr ss)"
  then show "get_prop (removeUndefinedFromObject (object_literal
          (spread parameters @ [(''fields'', fields_param env parameters)]))) ''fields''
         = JStr (join_strings '','' ss)"
    by (simp only: get_prop_fields fields_param_strings)
next
  assume "opt_prop parameters ''fields'' = JUndefined"
  then have "get_prop (spread parameters @ [(''fields'', fields_param env parameters)]) ''fields''
      = JUndefined"
    by (simp add: get_prop_append fields_param_undefined)
  then show "''fields'' \<notin> fst ` set (removeUndefinedFromObject (object_literal
          (spread parameters @ [(''fields'', fields_param env parameters)])))"
    by (simp only: keys_removeUndefined get_prop_object_literal simp_thms)
qed

lemma searchGet_arrays:
  assumes "\<forall>ys. opt_prop options ''filter'' \<noteq> JArr ys" and "array_params_typed options"
  shows "\<exists>ps. searchGet env this query options config w =
            (transport env w \<lparr>rq_method = GET, rq_url = ''indexes/'' @ uid this @ ''/search'',
               rq_data = JUndefined, rq_params = JObj ps, rq_config = config\<rparr>,
             w @ [\<lparr>rq_method = GET, rq_url = ''indexes/'' @ uid this @ ''/search'',
               rq_data = JUndefined, rq_params = JObj ps, rq_config = config\<rparr>])
          \<and> (\<forall>k\<in>set array_params. \<forall>ss. opt_prop options k = JArr (map JStr ss) \<longrightarrow>
                 get_prop ps k = JStr (join_strings '','' ss))
          \<and> (\<forall>k\<in>set array_params. opt_prop options k = JUndefined \<longrightarrow> k \<notin> fst ` set ps)"
proof -
  let ?full = "(''q'', query) # spread options @
         [(''filter'', filter_out (opt_prop options ''filter'')),
          (''sort'', join_out env (opt_prop options ''sort'')),
          (''facets'', join_out env (opt_prop options ''facets'')),
          (''attributesToRetrieve'', join_out env (opt_prop options ''attributesToRetrieve'')),
          (''attributesToCrop'', join_out env (opt_prop options ''attributesToCrop'')),
          (''attributesToHighlight'', join_out env (opt_prop options ''attributesToHighlight''))]"
  let ?ps = "removeUndefinedFromObject (object_literal ?full)"
  have gp: "getParams env query options = Inr (object_literal ?full)"
    using assms by (simp add: getParams_typed)
  have 1: "searchGet env this query options config w =
            (transport env w \<lparr>rq_method = GET, rq_url = ''indexes/'' @ uid this @ ''/search'',
               rq_data = JUndefined, rq_params = JObj ?ps, rq_config = config\<rparr>,
             w @ [\<lparr>rq_method = GET, rq_url = ''indexes/'' @ uid this @ ''/search'',
               rq_data = JUndefined, rq_params = JObj ?ps, rq_config = config\<rparr>])"
    by (simp add: searchGet_def gp httpRequest_get_def http_send_def)
  have g: "get_prop ?ps k = join_out env (opt_prop options k)" if "k \<in> set array_params" for k
    using that by (simp only: get_prop_removeUndefined get_prop_object_literal get_prop_getParams_array)
  have 2: "\<forall>k\<in>set array_params. \<forall>ss. opt_prop options k = JArr (map JStr ss) \<longrightarrow>
                 get_prop ?ps k = JStr (join_strings '','' ss)"
  proof (intro ballI allI impI)
    fix k ss assume k: "k \<in> set array_params" and v: "opt_prop options k = JArr (map JStr ss)"
    show "get_prop ?ps k = JStr (join_strings '','' ss)"
      by (simp only: g[OF k] v join_out_strings)
  qed
  have 3: "\<forall>k\<in>set array_params. opt_prop options k = JUndefined \<longrightarrow> k \<notin> fst ` set ?ps"
  proof (intro ballI impI)
    fix k assume k: "k \<in> set array_params" and v: "opt_prop options k = JUndefined"
    have "get_prop ?ps k = JUndefined"
      by (simp only: g[OF k] v join_out_undefined)
    then have "get_prop (object_literal ?full) k = JUndefined"
      by (simp only: get_prop_removeUndefined)
    then show "k \<notin> fst ` set ?ps"
      by (simp only: keys_removeUndefined simp_thms)
  qed
  from 1 2 3 show ?thesis by blast
qed

lemma search_native:
  "\<exists>body. search env this query options config w =
            (transport env w \<lparr>rq_method = POST, rq_url = ''indexes/'' @ uid this @ ''/search'',
               rq_data = JObj body, rq_params = JUndefined, rq_config = config\<rparr>,
             w @ [\<lparr>rq_method = POST, rq_url = ''indexes/'' @ uid this @ ''/search'',
               rq_data = JObj body, rq_params = JUndefined, rq_config = config\<rparr>])
          \<and> (\<forall>k\<in>set array_params. get_prop body k = opt_prop options k)"
proof -
  let ?body = "removeUndefinedFromObject (object_literal ((''q'', query) # spread options))"
  have "get_prop ?body k = opt_prop options k" if "k \<in> set array_params" for k
  proof -
    from that have "fst (''q'', query) \<noteq> k" by (auto simp: array_params_def)
    then have "get_prop ((''q'', query) # spread options) k = opt_prop options k"
      by (simp add: get_prop_Cons_other opt_prop_spread)
    then show ?thesis
      by (simp only: get_prop_removeUndefined get_prop_object_literal)
  qed
  then show ?thesis
    by (intro exI[of _ ?body]) (simp add: search_def httpRequest_post_def http_send_def)
qed

text \<open>
  C4. In the request \<^verbatim>\<open>searchGet\<close> sends, each of \<^verbatim>\<open>sort\<close>, \<^verbatim>\<open>facets\<close>,
  \<^verbatim>\<open>attributesToRetrieve\<close>, \<^verbatim>\<open>attributesToCrop\<close> and \<^verbatim>\<open>attributesToHighlight\<close>
  that is an array of strings is sent as the comma-joined string of its elements, and one
  that is missing is left out; the same holds of \<^verbatim>\<open>fields\<close> in the requests of
  \<^verbatim>\<open>getDocuments\<close> and \<^verbatim>\<open>getDocument\<close>. The POST \<^verbatim>\<open>search\<close> sends each of the
  five in its body as the options have it.
\<close>

theorem get_requests_join_arrays:
  "((\<forall>ys. opt_prop options ''filter'' \<noteq> JArr ys) \<and> array_params_typed options \<longrightarrow>
      (\<exists>ps. searchGet env this query options config w =
            (transport env w \<lparr>rq_method = GET, rq_url = ''indexes/'' @ uid this @ ''/search'',
               rq_data = JUndefined, rq_params = JObj ps, rq_config = config\<rparr>,
             w @ [\<lparr>rq_method = GET, rq_url = ''indexes/'' @ uid this @ ''/search'',
               rq_data = JUndefined, rq_params = JObj ps, rq_config = config\<rparr>])
          \<and> (\<forall>k\<in>set array_params. \<forall>ss. opt_prop options k = JArr (map JStr ss) \<longrightarrow>
                 get_prop ps k = JStr (join_strings '','' ss))
          \<and> (\<forall>k\<in>set array_params. opt_prop options k = JUndefined \<longrightarrow> k \<notin> fst ` set ps)))
   \<and> (\<exists>body. search env this query options config w =
            (transport env w \<lparr>rq_method = POST, rq_url = ''indexes/'' @ uid this @ ''/search'',
               rq_data = JObj body, rq_params = JUndefined, rq_config = config\<rparr>,
             w @ [\<lparr>rq_method = POST, rq_url = ''indexes/'' @ uid this @ ''/search'',
               rq_data = JObj body, rq_params = JUndefined, rq_config = config\<rparr>])
          \<and> (\<forall>k\<in>set array_params. get_prop body k = opt_prop options k))
   \<and> (\<exists>ps. getDocuments env this parameters w =
            (transport env w \<lparr>rq_method = GET, rq_url = ''indexes/'' @ uid this @ ''/documents'',
               rq_data = JUndefined, rq_params = JObj ps, rq_config = JUndefined\<rparr>,
             w @ [\<lparr>rq_method = GET, rq_url = ''indexes/'' @ uid this @ ''/documents'',
               rq_data = JUndefined, rq_params = JObj ps, rq_config = JUndefined\<rparr>])
          \<and> (\<forall>ss. opt_prop parameters ''fields'' = JArr (map JStr ss) \<longrightarrow>
                 get_prop ps ''fields'' = JStr (join_strings '','' ss))
          \<and> (opt_prop parameters ''fields'' = JUndefined \<longrightarrow> ''fields'' \<notin> fst ` set ps))
   \<and> (\<exists>ps. getDocument env this documentId parameters w =
            (transport env w \<lparr>rq_method = GET,
               rq_url = ''indexes/'' @ uid this @ ''/documents/'' @ template env documentId,
               rq_data = JUndefined, rq_params = JObj ps, rq_config = JUndefined\<rparr>,
             w @ [\<lparr>rq_method = GET,
               rq_url = ''indexes/'' @ uid this @ ''/documents/'' @ template env documentId,
               rq_data = JUndefined, rq_params = JObj ps, rq_config = JUndefined\<rparr>])
          \<and> (\<forall>ss. opt_prop parameters ''fields'' = JArr (map JStr ss) \<longrightarrow>
                 get_prop ps ''fields'' = JStr (join_strings '','' ss))
          \<and> (opt_prop parameters ''fields'' = JUndefined \<longrightarrow> ''fields'' \<notin> fst ` set ps))"
proof (intro conjI impI)
  assume "(\<forall>ys. opt_prop options ''filter'' \<noteq> JArr ys) \<and> array_params_typed options"
  then show "\<exists>ps. searchGet env this query options config w =
            (transport env w \<lparr>rq_method = GET, rq_url = ''indexes/'' @ uid this @ ''/search'',
               rq_data = JUndefined, rq_params = JObj ps, rq_config = config\<rparr>,
             w @ [\<lparr>rq_method = GET, rq_url = ''indexes/'' @ uid this @ ''/search'',
               rq_data = JUndefined, rq_params = JObj ps, rq_config = config\<rparr>])
          \<and> (\<forall>k\<in>set array_params. \<forall>ss. opt_prop options k = JArr (map JStr ss) \<longrightarrow>
                 get_prop ps k = JStr (join_strings '','' ss))
          \<and> (\<forall>k\<in>set array_params. opt_prop options k = JUndefined \<longrightarrow> k \<notin> fst ` set ps)"
    using searchGet_arrays by blast
next
  show "\<exists>body. search env this query options config w =
            (transport env w \<lparr>rq_method = POST, rq_url = ''indexes/'' @ uid this @ ''/search'',
               rq_data = JObj body, rq_params = JUndefined, rq_config = config\<rparr>,
             w @ [\<lparr>rq_method = POST, rq_url = ''indexes/'' @ uid this @ ''/search'',
               rq_data = JObj body, rq_params = JUndefined, rq_config = config\<rparr>])
          \<and> (\<forall>k\<in>set array_params. get_prop body k = opt_prop options k)"
    by (rule search_native)
next
  let ?ps = "removeUndefinedFromObject (object_literal
          (spread parameters @ [(''fields'', fields_param env parameters)]))"
  have "getDocuments env this parameters w =
            (transport env w \<lparr>rq_method = GET, rq_url = ''indexes/'' @ uid this @ ''/documents'',
               rq_data = JUndefined, rq_params = JObj ?ps, rq_config = JUndefined\<rparr>,
             w @ [\<lparr>rq_method = GET, rq_url = ''indexes/'' @ uid this @ ''/documents'',
               rq_data = JUndefined, rq_params = JObj ?ps, rq_config = JUndefined\<rparr>])"
    by (simp add: getDocuments_def httpRequest_get_def http_send_def)
  with fields_query[of parameters env]
  show "\<exists>ps. getDocuments env this parameters w =
            (transport env w \<lparr>rq_method = GET, rq_url = ''indexes/'' @ uid this @ ''/documents'',
               rq_data = JUndefined, rq_params = JObj ps, rq_config = JUndefined\<rparr>,
             w @ [\<lparr>rq_method = GET, rq_url = ''indexes/'' @ uid this @ ''/documents'',
               rq_data = JUndefined, rq_params = JObj ps, rq_config = JUndefined\<rparr>])
          \<and> (\<forall>ss. opt_prop parameters ''fields'' = JArr (map JStr ss) \<longrightarrow>
                 get_prop ps ''fields'' = JStr (join_strings '','' ss))
          \<and> (opt_prop parameters ''fields'' = JUndefined \<longrightarrow> ''fields'' \<notin> fst ` set ps)"
    by blast
next
  let ?ps = "removeUndefinedFromObject (object_literal
          (spread parameters @ [(''fields'', fields_param env parameters)]))"
  have "getDocument env this documentId parameters w =
            (transport env w \<lparr>rq_method = GET,
               rq_url = ''indexes/'' @ uid this @ ''/documents/'' @ template env documentId,
               rq_data = JUndefined, rq_params = JObj ?ps, rq_config = JUndefined\<rparr>,
             w @ [\<lparr>rq_method = GET,
               rq_url = ''indexes/'' @ uid this @ ''/documents/'' @ template env documentId,
               rq_data = JUndefined, rq_params = JObj ?ps, rq_config = JUndefined\<rparr>])"
    by (simp add: getDocument_def httpRequest_get_def http_send_def)
  with fields_query[of parameters env]
  show "\<exists>ps. getDocument env this documentId parameters w =
            (transport env w \<lparr>rq_method = GET,
               rq_url = ''indexes/'' @ uid this @ ''/documents/'' @ template env documentId,
               rq_data = JUndefined, rq_params = JObj ps, rq_config = JUndefined\<rparr>,
             w @ [\<lparr>rq_method = GET,
               rq_url = ''indexes/'' @ uid this @ ''/documents/'' @ template env documentId,
               rq_data = JUndefined, rq_params = JObj ps, rq_config = JUndefined\<rparr>])
          \<and> (\<forall>ss. opt_prop parameters ''fields'' = JArr (map JStr ss) \<longrightarrow>
                 get_prop ps ''fields'' = JStr (join_strings '','' ss))
          \<and> (opt_prop parameters ''fields'' = JUndefined \<longrightarrow> ''fields'' \<notin> fst ` set ps)"
    by blast
qed

theorem get_requests_join_arrays_witness:
  "(\<forall>ys. opt_prop (Some [(''sort'', JArr [JStr ''title:asc'', JStr ''year:desc'']), (''limit'', JNum 3)])
            ''filter'' \<noteq> JArr ys)
   \<and> array_params_typed (Some [(''sort'', JArr [JStr ''title:asc'', JStr ''year:desc'']), (''limit'', JNum 3)])
   \<and> ''sort'' \<in> set array_params \<and> ''facets'' \<in> set array_params
   \<and> (\<exists>ps. snd (searchGet sample_env movies (JStr ''dune'')
                (Some [(''sort'', JArr [JStr ''title:asc'', JStr ''year:desc'']), (''limit'', JNum 3)])
                JUndefined []) =
             [\<lparr>rq_method = GET, rq_url = ''indexes/movies/search'', rq_data = JUndefined,
                rq_params = JObj ps, rq_config = JUndefined\<rparr>]
           \<and> get_prop ps ''sort'' = JStr ''title:asc,year:desc''
           \<and> ''facets'' \<notin> fst ` set ps)
   \<and> (\<exists>ps. snd (getDocuments sample_env movies (Some [(''fields'', JArr [JStr ''id'', JStr ''title''])]) []) =
             [\<lparr>rq_method = GET, rq_url = ''indexes/movies/documents'', rq_data = JUndefined,
                rq_params = JObj ps, rq_config = JUndefined\<rparr>]
           \<and> get_prop ps ''fields'' = JStr ''id,title'')"
proof -
  let ?O = "Some [(''sort'', JArr [JStr ''title:asc'', JStr ''year:desc'']), (''limit'', JNum 3)]"
  let ?P = "Some [(''fields'', JArr [JStr ''id'', JStr ''title''])]"
  have h1: "\<forall>ys. opt_prop ?O ''filter'' \<noteq> JArr ys"
    by (simp add: opt_prop_def get_prop_def)
  have h2: "array_params_typed ?O"
    by (simp add: array_params_typed_def array_params_def joinable_def opt_prop_def get_prop_def)
  have k1: "''sort'' \<in> set array_params" and k2: "''facets'' \<in> set array_params"
    by (simp_all add: array_params_def)
  have v1: "opt_prop ?O ''sort'' = JArr (map JStr [''title:asc'', ''year:desc''])"
    by (simp add: opt_prop_def get_prop_def)
  have v2: "opt_prop ?O ''facets'' = JUndefined"
    by (simp add: opt_prop_def get_prop_def)
  have v3: "opt_prop ?P ''fields'' = JArr (map JStr [''id'', ''title''])"
    by (simp add: opt_prop_def get_prop_def)
  note t = get_requests_join_arrays[of ?O sample_env movies "JStr ''dune''" JUndefined "[]" ?P JUndefined]
  from t[THEN conjunct1, rule_format, OF conjI[OF h1 h2]] obtain ps where
    ps: "searchGet sample_env movies (JStr ''dune'') ?O JUndefined [] =
            (transport sample_env [] \<lparr>rq_method = GET, rq_url = ''indexes/'' @ uid movies @ ''/search'',
               rq_data = JUndefined, rq_params = JObj ps, rq_config = JUndefined\<rparr>,
             [] @ [\<lparr>rq_method = GET, rq_url = ''indexes/'' @ uid movies @ ''/search'',
               rq_data = JUndefined, rq_params = JObj ps, rq_config = JUndefined\<rparr>])"
    and j: "\<forall>k\<in>set array_params. \<forall>ss. opt_prop ?O k = JArr (map JStr ss) \<longrightarrow>
                 get_prop ps k = JStr (join_strings '','' ss)"
    and u: "\<forall>k\<in>set array_params. opt_prop ?O k = JUndefined \<longrightarrow> k \<notin> fst ` set ps"
    by blast
  from j k1 v1 have "get_prop ps ''sort'' = JStr (join_strings '','' [''title:asc'', ''year:desc''])"
    by blast
  then have a1: "get_prop ps ''sort'' = JStr ''title:asc,year:desc''" by simp
  from u k2 v2 have a2: "''facets'' \<notin> fst ` set ps" by blast
  from ps have a0: "snd (searchGet sample_env movies (JStr ''dune'') ?O JUndefined []) =
             [\<lparr>rq_method = GET, rq_url = ''indexes/movies/search'', rq_data = JUndefined,
                rq_params = JObj ps, rq_config = JUndefined\<rparr>]"
    by (simp add: movies_def)
  from t[THEN conjunct2, THEN conjunct2, THEN conjunct1] obtain qs where
    qs: "getDocuments sample_env movies ?P [] =
            (transport sample_env [] \<lparr>rq_method = GET, rq_url = ''indexes/'' @ uid movies @ ''/documents'',
               rq_data = JUndefined, rq_params = JObj qs, rq_config = JUndefined\<rparr>,
             [] @ [\<lparr>rq_method = GET, rq_url = ''indexes/'' @ uid movies @ ''/documents'',
               rq_data = JUndefined, rq_params = JObj qs, rq_config = JUndefined\<rparr>])"
    and f: "\<forall>ss. opt_prop ?P ''fields'' = JArr (map JStr ss) \<longrightarrow>
                 get_prop qs ''fields'' = JStr (join_strings '','' ss)"
    by blast
  from f v3 have "get_prop qs ''fields'' = JStr (join_strings '','' [''id'', ''title''])" by blast
  then have b1: "get_prop qs ''fields'' = JStr ''id,title''" by simp
  from qs have b0: "snd (getDocuments sample_env movies ?P []) =
             [\<lparr>rq_method = GET, rq_url = ''indexes/movies/documents'', rq_data = JUndefined,
                rq_params = JObj qs, rq_config = JUndefined\<rparr>]"
    by (simp add: movies_def)
  from a0 a1 a2 have A: "\<exists>ps. snd (searchGet sample_env movies (JStr ''dune'') ?O JUndefined []) =
             [\<lparr>rq_method = GET, rq_url = ''indexes/movies/search'', rq_data = JUndefined,
                rq_params = JObj ps, rq_config = JUndefined\<rparr>]
           \<and> get_prop ps ''sort'' = JStr ''title:asc,year:desc''
           \<and> ''facets'' \<notin> fst ` set ps" by blast
  from b0 b1 have B: "\<exists>ps. snd (getDocuments sample_env movies ?P []) =
             [\<lparr>rq_method = GET, rq_url = ''indexes/movies/documents'', rq_data = JUndefined,
                rq_params = JObj ps, rq_config = JUndefined\<rparr>]
           \<and> get_prop ps ''fields'' = JStr ''id,title''" by blast
  from h1 h2 k1 k2 A B show ?thesis by (intro conjI)
qed


section \<open>The tasks of an index\<close>

lemma keys_object_literal: "fst ` set (object_literal es) = fst ` set es"
proof -
  have "dom (map_of (object_literal es)) = dom (map_of (rev es))"
    by (rule arg_cong[where f = dom]) (rule ext, rule map_of_object_literal)
  then show ?thesis by (simp add: dom_map_of_conv_image_fst)
qed

text \<open>
  C10. The query \<^verbatim>\<open>Index.getTasks\<close> hands to the task client has \<^verbatim>\<open>indexUids\<close> equal
  to the one-element list of the uid of this index, whatever the caller put there; every
  other key has the value the caller gave it, and no key is added or lost.
\<close>

theorem getTasks_forces_indexUids:
  "\<exists>q. getTasks env this parameters w = tasks_getTasks env (JObj q) w
      \<and> get_prop q ''indexUids'' = JArr [JStr (uid this)]
      \<and> (\<forall>k. k \<noteq> ''indexUids'' \<longrightarrow> get_prop q k = opt_prop parameters k)
      \<and> fst ` set q = insert ''indexUids'' (fst ` set (spread parameters))"
proof -
  let ?q = "object_literal (spread parameters @ [(''indexUids'', JArr [JStr (uid this)])])"
  have 1: "getTasks env this parameters w = tasks_getTasks env (JObj ?q) w"
    by (simp add: getTasks_def)
  have 2: "get_prop ?q ''indexUids'' = JArr [JStr (uid this)]"
    by (simp add: get_prop_object_literal get_prop_append)
  have 3: "\<forall>k. k \<noteq> ''indexUids'' \<longrightarrow> get_prop ?q k = opt_prop parameters k"
    by (simp add: get_prop_object_literal get_prop_append opt_prop_spread)
  have 4: "fst ` set ?q = insert ''indexUids'' (fst ` set (spread parameters))"
    by (simp add: keys_object_literal)
  from 1 2 3 4 show ?thesis by blast
qed

theorem getTasks_forces_indexUids_witness:
  "''limit'' \<noteq> ''indexUids''
   \<and> (\<exists>q. getTasks sample_env movies
             (Some [(''indexUids'', JArr [JStr ''books'', JStr ''songs'']), (''limit'', JNum 3)]) [] =
           (Inr (JObj [(''query'', JObj q)]), [])
         \<and> get_prop q ''indexUids'' = JArr [JStr ''movies'']
         \<and> get_prop q ''limit'' = JNum 3)"
proof -
  let ?P = "Some [(''indexUids'', JArr [JStr ''books'', JStr ''songs'']), (''limit'', JNum 3)]"
  have h: "''limit'' \<noteq> ''indexUids''" by simp
  from getTasks_forces_indexUids[of sample_env movies ?P "[]"] obtain q where
    1: "getTasks sample_env movies ?P [] = tasks_getTasks sample_env (JObj q) []"
    and 2: "get_prop q ''indexUids'' = JArr [JStr (uid movies)]"
    and 3: "\<forall>k. k \<noteq> ''indexUids'' \<longrightarrow> get_prop q k = opt_prop ?P k"
    by blast
  from 3[rule_format, OF h] have "get_prop q ''limit'' = opt_prop ?P ''limit''" .
  then have a: "get_prop q ''limit'' = JNum 3" by (simp add: opt_prop_def get_prop_def)
  from 2 have b: "get_prop q ''indexUids'' = JArr [JStr ''movies'']" by (simp add: movies_def)
  from 1 have c: "getTasks sample_env movies ?P [] = (Inr (JObj [(''query'', JObj q)]), [])"
    by (simp add: sample_env_def)
  have "\<exists>q. getTasks sample_env movies ?P [] = (Inr (JObj [(''query'', JObj q)]), [])
         \<and> get_prop q ''indexUids'' = JArr [JStr ''movies'']
         \<and> get_prop q ''limit'' = JNum 3"
    by (rule exI[of _ q]) (intro conjI c b a)
  with h show ?thesis by (rule conjI)
qed


section \<open>Wait options\<close>

text \<open>
  C7. \<^verbatim>\<open>waitForTask\<close> and \<^verbatim>\<open>waitForTasks\<close> call the task client with both wait
  options set: \<^verbatim>\<open>timeOutMs\<close> is 5000 and \<^verbatim>\<open>intervalMs\<close> is 50 where the caller left
  the option (or the whole argument) out, and the caller's value otherwise.
\<close>

theorem wait_options_defaults:
  "\<exists>t i. waitForTask env this taskUid waitOptions w =
            tasks_waitForTask env taskUid (JObj [(''timeOutMs'', t), (''intervalMs'', i)]) w
        \<and> waitForTasks env this taskUids waitOptions w =
            tasks_waitForTasks env taskUids (JObj [(''timeOutMs'', t), (''intervalMs'', i)]) w
        \<and> (opt_prop waitOptions ''timeOutMs'' = JUndefined \<longrightarrow> t = JNum 5000)
        \<and> (opt_prop waitOptions ''timeOutMs'' \<noteq> JUndefined \<longrightarrow> t = opt_prop waitOptions ''timeOutMs'')
        \<and> (opt_prop waitOptions ''intervalMs'' = JUndefined \<longrightarrow> i = JNum 50)
        \<and> (opt_prop waitOptions ''intervalMs'' \<noteq> JUndefined \<longrightarrow> i = opt_prop waitOptions ''intervalMs'')"
  by (intro exI[of _ "destructure_default waitOptions ''timeOutMs'' (JNum 5000)"]
            exI[of _ "destructure_default waitOptions ''intervalMs'' (JNum 50)"])
     (simp add: waitForTask_def waitForTasks_def destructure_default_def)

theorem wait_options_defaults_witness:
  "opt_prop None ''timeOutMs'' = JUndefined \<and> opt_prop None ''intervalMs'' = JUndefined
   \<and> waitForTask sample_env movies (JNum 7) None [] =
       tasks_waitForTask sample_env (JNum 7) (JObj [(''timeOutMs'', JNum 5000), (''intervalMs'', JNum 50)]) []
   \<and> opt_prop (Some [(''timeOutMs'', JNum 100)]) ''timeOutMs'' \<noteq> JUndefined
   \<and> opt_prop (Some [(''timeOutMs'', JNum 100)]) ''intervalMs'' = JUndefined
   \<and> waitForTasks sample_env movies [JNum 7, JNum 8] (Some [(''timeOutMs'', JNum 100)]) [] =
       tasks_waitForTasks sample_env [JNum 7, JNum 8]
         (JObj [(''timeOutMs'', JNum 100), (''intervalMs'', JNum 50)]) []"
proof -
  have n1: "opt_prop None ''timeOutMs'' = JUndefined" and n2: "opt_prop None ''intervalMs'' = JUndefined"
    by (simp_all add: opt_prop_def)
  have s1: "opt_prop (Some [(''timeOutMs'', JNum 100)]) ''timeOutMs'' = JNum 100"
    and s2: "opt_prop (Some [(''timeOutMs'', JNum 100)]) ''intervalMs'' = JUndefined"
    by (simp_all add: opt_prop_def get_prop_def)
  from wait_options_defaults[of sample_env movies "JNum 7" None "[]" "[]"] n1 n2
  have a: "waitForTask sample_env movies (JNum 7) None [] =
       tasks_waitForTask sample_env (JNum 7) (JObj [(''timeOutMs'', JNum 5000), (''intervalMs'', JNum 50)]) []"
    by auto
  from wait_options_defaults[of sample_env movies JUndefined "Some [(''timeOutMs'', JNum 100)]" "[]"
      "[JNum 7, JNum 8]"] s1 s2
  have b: "waitForTasks sample_env movies [JNum 7, JNum 8] (Some [(''timeOutMs'', JNum 100)]) [] =
       tasks_waitForTasks sample_env [JNum 7, JNum 8]
         (JObj [(''timeOutMs'', JNum 100), (''intervalMs'', JNum 50)]) []"
    by auto
  from n1 n2 a s1 s2 b show ?thesis by simp
qed


section \<open>List-valued settings\<close>

lemma snd_after: "snd (after r f) = snd r"
  by (cases r) (auto simp: after_def split: sum.splits)

lemma snd_http_send: "snd (http_send env r w) = w @ [r]"
  by (simp add: http_send_def)

text \<open>
  C6. For each list-valued setting, the update is one \<open>PUT\<close> on the setting's path whose
  body is exactly the value given, whatever was sent before, and the reset is one
  \<open>DELETE\<close> on the same path. (What the server does with either is not the client's
  code.)
\<close>

theorem list_settings_put_and_delete:
  "\<forall>s\<in>set list_valued.
     snd (updater s env this v w) =
       w @ [\<lparr>rq_method = PUT, rq_url = ''indexes/'' @ uid this @ ''/settings'' @ subresource s,
             rq_data = v, rq_params = JUndefined, rq_config = JUndefined\<rparr>]
   \<and> snd (resetter s env this w') =
       w' @ [\<lparr>rq_method = DELETE, rq_url = ''indexes/'' @ uid this @ ''/settings'' @ subresource s,
              rq_data = JUndefined, rq_params = JUndefined, rq_config = JUndefined\<rparr>]"
  by (simp add: list_valued_def snd_after snd_http_send httpRequest_put_def httpRequest_delete_def
      updateStopWords_def resetStopWords_def updateSynonyms_def resetSynonyms_def
      updateRankingRules_def resetRankingRules_def
      updateFilterableAttributes_def resetFilterableAttributes_def
      updateSortableAttributes_def resetSortableAttributes_def
      updateSearchableAttributes_def resetSearchableAttributes_def
      updateDisplayedAttributes_def resetDisplayedAttributes_def)

theorem list_settings_put_and_delete_witness:
  "StopWords \<in> set list_valued
   \<and> updateStopWords sample_env movies (JArr [JStr ''a'', JStr ''the''])
        [\<lparr>rq_method = PUT, rq_url = ''indexes/movies/settings/stop-words'',
          rq_data = JArr [JStr ''of''], rq_params = JUndefined, rq_config = JUndefined\<rparr>]
      = (Inr (JObj [(''taskUid'', JNum 1), (''indexUid'', JStr ''movies''),
                   (''status'', JStr ''enqueued''), (''type'', JStr ''settingsUpdate''),
                   (''enqueuedAt'', JDate (Some 1646092800000))]),
         [\<lparr>rq_method = PUT, rq_url = ''indexes/movies/settings/stop-words'',
            rq_data = JArr [JStr ''of''], rq_params = JUndefined, rq_config = JUndefined\<rparr>,
          \<lparr>rq_method = PUT, rq_url = ''indexes/movies/settings/stop-words'',
            rq_data = JArr [JStr ''a'', JStr ''the''], rq_params = JUndefined, rq_config = JUndefined\<rparr>])
   \<and> snd (resetStopWords sample_env movies []) =
         [\<lparr>rq_method = DELETE, rq_url = ''indexes/movies/settings/stop-words'',
            rq_data = JUndefined, rq_params = JUndefined, rq_config = JUndefined\<rparr>]"
proof -
  have h: "StopWords \<in> set list_valued" by (simp add: list_valued_def)
  note t = list_settings_put_and_delete[rule_format, OF h, of sample_env movies
      "JArr [JStr ''a'', JStr ''the'']"
      "[\<lparr>rq_method = PUT, rq_url = ''indexes/movies/settings/stop-words'',
          rq_data = JArr [JStr ''of''], rq_params = JUndefined, rq_config = JUndefined\<rparr>]" "[]"]
  from t have a: "snd (updateStopWords sample_env movies (JArr [JStr ''a'', JStr ''the''])
        [\<lparr>rq_method = PUT, rq_url = ''indexes/movies/settings/stop-words'',
          rq_data = JArr [JStr ''of''], rq_params = JUndefined, rq_config = JUndefined\<rparr>]) =
         [\<lparr>rq_method = PUT, rq_url = ''indexes/movies/settings/stop-words'',
            rq_data = JArr [JStr ''of''], rq_params = JUndefined, rq_config = JUndefined\<rparr>,
          \<lparr>rq_method = PUT, rq_url = ''indexes/movies/settings/stop-words'',
            rq_data = JArr [JStr ''a'', JStr ''the''], rq_params = JUndefined, rq_config = JUndefined\<rparr>]"
    by (simp add: movies_def)
  from t have b: "snd (resetStopWords sample_env movies []) =
         [\<lparr>rq_method = DELETE, rq_url = ''indexes/movies/settings/stop-words'',
            rq_data = JUndefined, rq_params = JUndefined, rq_config = JUndefined\<rparr>]"
    by (simp add: movies_def)
  have c: "fst (updateStopWords sample_env movies (JArr [JStr ''a'', JStr ''the''])
        [\<lparr>rq_method = PUT, rq_url = ''indexes/movies/settings/stop-words'',
          rq_data = JArr [JStr ''of''], rq_params = JUndefined, rq_config = JUndefined\<rparr>]) =
      Inr (JObj [(''taskUid'', JNum 1), (''indexUid'', JStr ''movies''),
                   (''status'', JStr ''enqueued''), (''type'', JStr ''settingsUpdate''),
                   (''enqueuedAt'', JDate (Some 1646092800000))])"
    by (simp add: updateStopWords_def after_def httpRequest_put_def http_send_def sample_env_def
        sample_transport_def new_EnqueuedTask_def bind_err_def read_prop_def get_prop_def
        new_Date_def sample_Date_parse_def)
  from a c have "updateStopWords sample_env movies (JArr [JStr ''a'', JStr ''the''])
        [\<lparr>rq_method = PUT, rq_url = ''indexes/movies/settings/stop-words'',
          rq_data = JArr [JStr ''of''], rq_params = JUndefined, rq_config = JUndefined\<rparr>]
      = (Inr (JObj [(''taskUid'', JNum 1), (''indexUid'', JStr ''movies''),
                   (''status'', JStr ''enqueued''), (''type'', JStr ''settingsUpdate''),
                   (''enqueuedAt'', JDate (Some 1646092800000))]),
         [\<lparr>rq_method = PUT, rq_url = ''indexes/movies/settings/stop-words'',
            rq_data = JArr [JStr ''of''], rq_params = JUndefined, rq_config = JUndefined\<rparr>,
          \<lparr>rq_method = PUT, rq_url = ''indexes/movies/settings/stop-words'',
            rq_data = JArr [JStr ''a'', JStr ''the''], rq_params = JUndefined, rq_config = JUndefined\<rparr>])"
    by (simp only: prod_eq_iff fst_conv snd_conv simp_thms)
  with h b show ?thesis by (intro conjI)
qed


section \<open>The enqueue time of a returned task\<close>

lemma get_prop_last: "get_prop (obj @ [(k, x)]) k = x"
  by (simp add: get_prop_def)

lemma new_Date_is_date: "\<exists>d. new_Date env v = JDate d"
  by (cases v) (simp_all add: new_Date_def)

lemma new_EnqueuedTask_parsed:
  assumes "new_EnqueuedTask env task = Inr r"
  shows "\<exists>obj d. r = JObj obj \<and> get_prop obj ''enqueuedAt'' = JDate d"
proof -
  from assms obtain tu iu st ty ea where
    "r = JObj [(''taskUid'', tu), (''indexUid'', iu), (''status'', st), (''type'', ty),
               (''enqueuedAt'', new_Date env ea)]"
    by (auto simp: new_EnqueuedTask_def bind_err_def split: sum.splits)
  moreover obtain d where "new_Date env ea = JDate d" using new_Date_is_date by blast
  ultimately show ?thesis by (simp add: get_prop_def)
qed

lemma assign_Date_parsed:
  assumes "assign_Date env ''enqueuedAt'' ''enqueuedAt'' task = Inr r"
  shows "\<exists>obj d. r = JObj obj \<and> get_prop obj ''enqueuedAt'' = JDate d"
proof -
  from assms obtain obj v where t: "task = JObj obj"
    and r: "r = JObj (object_literal (obj @ [(''enqueuedAt'', new_Date env v)]))"
    by (cases task) (auto simp: assign_Date_def bind_err_def read_prop_def write_prop_def)
  obtain d where "new_Date env v = JDate d" using new_Date_is_date by blast
  with r show ?thesis by (simp add: get_prop_object_literal get_prop_last)
qed

lemma after_Inr: "after r f = (Inr v, w) \<Longrightarrow> \<exists>x. f x = Inr v"
  by (cases r) (auto simp: after_def split: sum.splits)

lemma after_new_EnqueuedTask:
  "fst (after r (new_EnqueuedTask env)) = Inr v \<Longrightarrow>
     \<exists>obj d. v = JObj obj \<and> get_prop obj ''enqueuedAt'' = JDate d"
  using after_Inr[of r "new_EnqueuedTask env" v "snd (after r (new_EnqueuedTask env))"]
    new_EnqueuedTask_parsed by (metis prod.collapse)

lemma after_assign_Date:
  "fst (after r (assign_Date env ''enqueuedAt'' ''enqueuedAt'')) = Inr v \<Longrightarrow>
     \<exists>obj d. v = JObj obj \<and> get_prop obj ''enqueuedAt'' = JDate d"
  using after_Inr[of r "assign_Date env ''enqueuedAt'' ''enqueuedAt''" v
      "snd (after r (assign_Date env ''enqueuedAt'' ''enqueuedAt''))"]
    assign_Date_parsed by (metis prod.collapse)

lemmas parsed_methods =
  create_def update_def delete_def addDocuments_def addDocumentsFromString_def
  updateDocuments_def updateDocumentsFromString_def deleteDocument_def deleteDocuments_def
  deleteAllDocuments_def resetSettings_def
  updatePagination_def resetPagination_def updateSynonyms_def resetSynonyms_def
  updateStopWords_def resetStopWords_def updateRankingRules_def resetRankingRules_def
  updateDistinctAttribute_def resetDistinctAttribute_def
  updateFilterableAttributes_def resetFilterableAttributes_def
  updateSortableAttributes_def resetSortableAttributes_def
  updateSearchableAttributes_def resetSearchableAttributes_def
  updateDisplayedAttributes_def resetDisplayedAttributes_def
  updateTypoTolerance_def resetTypoTolerance_def updateFaceting_def resetFaceting_def

lemma updater_parsed:
  "s \<noteq> AllSettings \<Longrightarrow> fst (updater s env this v w) = Inr r \<Longrightarrow>
     \<exists>obj d. r = JObj obj \<and> get_prop obj ''enqueuedAt'' = JDate d"
  by (cases s) (auto simp: parsed_methods dest: after_new_EnqueuedTask after_assign_Date)

lemma resetter_parsed:
  "fst (resetter s env this w) = Inr r \<Longrightarrow>
     \<exists>obj d. r = JObj obj \<and> get_prop obj ''enqueuedAt'' = JDate d"
  by (cases s) (auto simp: parsed_methods dest: after_new_EnqueuedTask after_assign_Date)

text \<open>Every operation that returns one enqueued task, \<^verbatim>\<open>updateSettings\<close> apart, returns
  it with \<^verbatim>\<open>enqueuedAt\<close> parsed into a date.\<close>

lemma other_operations_parse_enqueuedAt:
  assumes "returns_EnqueuedTask op" and "\<forall>v. op \<noteq> UpdateSetting AllSettings v"
    and "exec env op this w = Some (Inr (Value r), this', w')"
  shows "\<exists>obj d. r = JObj obj \<and> get_prop obj ''enqueuedAt'' = JDate d"
proof (cases op)
  case (UpdateSetting s x)
  with assms(3) have "fst (updater s env this x w) = Inr r"
    by (cases "fst (updater s env this x w)") (auto simp: keep_def)
  moreover from UpdateSetting assms(2) have "s \<noteq> AllSettings" by simp
  ultimately show ?thesis by (rule updater_parsed[rotated])
next
  case (ResetSetting s)
  with assms(3) have "fst (resetter s env this w) = Inr r"
    by (cases "fst (resetter s env this w)") (auto simp: keep_def)
  then show ?thesis by (rule resetter_parsed)
qed (use assms in \<open>auto simp: keep_def parsed_methods map_sum_def split: sum.splits
      dest: after_new_EnqueuedTask after_assign_Date\<close>)


lemma updateSettings_result:
  assumes "transport env w \<lparr>rq_method = PATCH, rq_url = ''indexes/'' @ uid this @ ''/settings'',
             rq_data = settings, rq_params = JUndefined, rq_config = JUndefined\<rparr> = Inr (JObj obj)"
  shows "\<exists>task. fst (updateSettings env this settings w) = Inr (JObj task)
           \<and> get_prop task ''enqueuedAt'' = get_prop obj ''enqueuedAt''
           \<and> get_prop task ''enqueued'' = new_Date env (get_prop obj ''enqueuedAt'')"
proof -
  let ?task = "object_literal (obj @ [(''enqueued'', new_Date env (get_prop obj ''enqueuedAt''))])"
  have "fst (updateSettings env this settings w) = Inr (JObj ?task)"
    using assms
    by (simp add: updateSettings_def after_def httpRequest_patch_def http_send_def
        assign_Date_def bind_err_def read_prop_def write_prop_def)
  moreover have "get_prop ?task ''enqueuedAt'' = get_prop obj ''enqueuedAt''"
    by (simp add: get_prop_object_literal get_prop_append)
  moreover have "get_prop ?task ''enqueued'' = new_Date env (get_prop obj ''enqueuedAt'')"
    by (simp add: get_prop_object_literal get_prop_last)
  ultimately show ?thesis by blast
qed

text \<open>
  C5. The claim is that every operation returning an enqueued task returns it with
  \<^verbatim>\<open>enqueuedAt\<close> parsed into a date. \<^verbatim>\<open>updateSettings\<close> does not: on the sample
  server its result still carries \<^verbatim>\<open>enqueuedAt\<close> as the string the server sent, and the
  parsed date sits under the key \<^verbatim>\<open>enqueued\<close>; \<^verbatim>\<open>update\<close>, given the same kind of
  answer, returns the date under \<^verbatim>\<open>enqueuedAt\<close>.
\<close>

theorem updateSettings_enqueuedAt_left_unparsed:
  "updateSettings sample_env movies (JObj [(''stopWords'', JArr [JStr ''the''])]) [] =
     (Inr (JObj [(''taskUid'', JNum 0), (''indexUid'', JStr ''movies''),
                 (''status'', JStr ''enqueued''), (''type'', JStr ''settingsUpdate''),
                 (''enqueuedAt'', JStr ''2022-03-01T00:00:00Z''),
                 (''enqueued'', JDate (Some 1646092800000))]),
      [\<lparr>rq_method = PATCH, rq_url = ''indexes/movies/settings'',
         rq_data = JObj [(''stopWords'', JArr [JStr ''the''])],
         rq_params = JUndefined, rq_config = JUndefined\<rparr>])
   \<and> fst (update sample_env movies (JObj [(''primaryKey'', JStr ''id'')]) []) =
     Inr (JObj [(''taskUid'', JNum 0), (''indexUid'', JStr ''movies''),
                (''status'', JStr ''enqueued''), (''type'', JStr ''settingsUpdate''),
                (''enqueuedAt'', JDate (Some 1646092800000))])"
  by (simp add: updateSettings_def update_def after_def httpRequest_patch_def http_send_def
      sample_env_def sample_transport_def movies_def assign_Date_def bind_err_def read_prop_def
      write_prop_def get_prop_def new_Date_def sample_Date_parse_def object_literal_def
      set_prop_def)


section \<open>The cached fields of the handle\<close>

lemma keep_this: "keep this r = Some (x, this', w') \<Longrightarrow> this' = this"
  by (auto simp: keep_def)

lemma exec_frame:
  assumes "\<not> info_fetch op" and "exec env op this w = Some (r, this', w')"
  shows "this' = this"
  using assms
  by (cases op) (auto simp: info_fetch_def bind_eq_Some_conv dest: keep_this split: prod.splits)

lemma getRawInfo_snapshot:
  assumes "transport env w \<lparr>rq_method = GET, rq_url = ''indexes/'' @ uid this, rq_data = JUndefined,
             rq_params = JUndefined, rq_config = JUndefined\<rparr> = Inr (JObj res)"
  shows "getRawInfo env this w =
     (Inr (JObj res),
      this\<lparr>primaryKey := get_prop res ''primaryKey'',
           updatedAt := new_Date env (get_prop res ''updatedAt''),
           createdAt := new_Date env (get_prop res ''createdAt'')\<rparr>,
      w @ [\<lparr>rq_method = GET, rq_url = ''indexes/'' @ uid this, rq_data = JUndefined,
             rq_params = JUndefined, rq_config = JUndefined\<rparr>])"
  using assms by (simp add: getRawInfo_def httpRequest_get_def http_send_def read_prop_def)

text \<open>
  C8. An operation other than \<^verbatim>\<open>getRawInfo\<close>, \<^verbatim>\<open>fetchInfo\<close> and
  \<^verbatim>\<open>fetchPrimaryKey\<close> leaves the handle, and so its \<^verbatim>\<open>primaryKey\<close>,
  \<^verbatim>\<open>createdAt\<close> and \<^verbatim>\<open>updatedAt\<close>, as it was. Each of the three, when the server
  answers with the description of the index, sets \<^verbatim>\<open>primaryKey\<close> to the answer's and
  \<^verbatim>\<open>createdAt\<close>, \<^verbatim>\<open>updatedAt\<close> to the dates made from the answer's.
\<close>

theorem cached_fields_frame:
  "(\<not> info_fetch op \<longrightarrow>
      (\<forall>r this' w'. exec env op this w = Some (r, this', w') \<longrightarrow>
         primaryKey this' = primaryKey this \<and> createdAt this' = createdAt this
         \<and> updatedAt this' = updatedAt this \<and> this' = this))
   \<and> (info_fetch op
       \<and> transport env w \<lparr>rq_method = GET, rq_url = ''indexes/'' @ uid this, rq_data = JUndefined,
             rq_params = JUndefined, rq_config = JUndefined\<rparr> = Inr (JObj res) \<longrightarrow>
      (\<exists>r this'. exec env op this w =
           Some (Inr r, this',
                 w @ [\<lparr>rq_method = GET, rq_url = ''indexes/'' @ uid this, rq_data = JUndefined,
                        rq_params = JUndefined, rq_config = JUndefined\<rparr>])
         \<and> uid this' = uid this
         \<and> primaryKey this' = get_prop res ''primaryKey''
         \<and> createdAt this' = new_Date env (get_prop res ''createdAt'')
         \<and> updatedAt this' = new_Date env (get_prop res ''updatedAt'')))"
proof (intro conjI impI allI)
  fix r this' w'
  assume "\<not> info_fetch op" and "exec env op this w = Some (r, this', w')"
  then have "this' = this" by (rule exec_frame)
  then show "primaryKey this' = primaryKey this" and "createdAt this' = createdAt this"
    and "updatedAt this' = updatedAt this" and "this' = this"
    by simp_all
next
  assume a: "info_fetch op
       \<and> transport env w \<lparr>rq_method = GET, rq_url = ''indexes/'' @ uid this, rq_data = JUndefined,
             rq_params = JUndefined, rq_config = JUndefined\<rparr> = Inr (JObj res)"
  then have g: "getRawInfo env this w =
     (Inr (JObj res),
      this\<lparr>primaryKey := get_prop res ''primaryKey'',
           updatedAt := new_Date env (get_prop res ''updatedAt''),
           createdAt := new_Date env (get_prop res ''createdAt'')\<rparr>,
      w @ [\<lparr>rq_method = GET, rq_url = ''indexes/'' @ uid this, rq_data = JUndefined,
             rq_params = JUndefined, rq_config = JUndefined\<rparr>])"
    by (simp add: getRawInfo_snapshot)
  from a have "op = GetRawInfo \<or> op = FetchInfo \<or> op = FetchPrimaryKey"
    by (simp add: info_fetch_def)
  then show "\<exists>r this'. exec env op this w =
           Some (Inr r, this',
                 w @ [\<lparr>rq_method = GET, rq_url = ''indexes/'' @ uid this, rq_data = JUndefined,
                        rq_params = JUndefined, rq_config = JUndefined\<rparr>])
         \<and> uid this' = uid this
         \<and> primaryKey this' = get_prop res ''primaryKey''
         \<and> createdAt this' = new_Date env (get_prop res ''createdAt'')
         \<and> updatedAt this' = new_Date env (get_prop res ''updatedAt'')"
    by (elim disjE) (simp_all add: g fetchInfo_def fetchPrimaryKey_def read_prop_def)
qed

theorem cached_fields_frame_witness:
  "\<not> info_fetch (UpdateSetting StopWords (JArr [JStr ''the'']))
   \<and> (\<exists>r w'. exec sample_env (UpdateSetting StopWords (JArr [JStr ''the'']))
                (movies\<lparr>primaryKey := JStr ''old''\<rparr>) [] =
              Some (r, movies\<lparr>primaryKey := JStr ''old''\<rparr>, w'))
   \<and> info_fetch FetchInfo
   \<and> transport sample_env [] \<lparr>rq_method = GET, rq_url = ''indexes/'' @ uid movies, rq_data = JUndefined,
             rq_params = JUndefined, rq_config = JUndefined\<rparr> =
       Inr (JObj [(''uid'', JStr ''movies''), (''primaryKey'', JStr ''id''),
                  (''createdAt'', JStr ''2022-01-01T00:00:00Z''),
                  (''updatedAt'', JStr ''2022-02-01T00:00:00Z'')])
   \<and> (\<exists>r this' w'. exec sample_env FetchInfo movies [] = Some (Inr r, this', w')
         \<and> primaryKey this' = JStr ''id''
         \<and> createdAt this' = JDate (Some 1640995200000)
         \<and> updatedAt this' = JDate (Some 1643673600000))"
proof -
  let ?op = "UpdateSetting StopWords (JArr [JStr ''the''])"
  let ?old = "movies\<lparr>primaryKey := JStr ''old''\<rparr>"
  let ?res = "[(''uid'', JStr ''movies''), (''primaryKey'', JStr ''id''),
                  (''createdAt'', JStr ''2022-01-01T00:00:00Z''),
                  (''updatedAt'', JStr ''2022-02-01T00:00:00Z'')]"
  have h1: "\<not> info_fetch ?op" by (simp add: info_fetch_def)
  obtain r this' w' where e: "exec sample_env ?op ?old [] = Some (r, this', w')"
    by (simp add: keep_def)
  from cached_fields_frame[of ?op sample_env ?old "[]", THEN conjunct1, rule_format, OF h1 e]
  have "this' = ?old" by simp
  with e have a: "\<exists>r w'. exec sample_env ?op ?old [] = Some (r, ?old, w')" by blast
  have h2: "info_fetch FetchInfo" by (simp add: info_fetch_def)
  have h3: "transport sample_env [] \<lparr>rq_method = GET, rq_url = ''indexes/'' @ uid movies,
      rq_data = JUndefined, rq_params = JUndefined, rq_config = JUndefined\<rparr> = Inr (JObj ?res)"
    by (simp add: sample_env_def sample_transport_def)
  from cached_fields_frame[of FetchInfo sample_env movies "[]" ?res, THEN conjunct2, rule_format,
      OF conjI[OF h2 h3]]
  obtain r2 this2 where e2: "exec sample_env FetchInfo movies [] =
           Some (Inr r2, this2,
                 [] @ [\<lparr>rq_method = GET, rq_url = ''indexes/'' @ uid movies, rq_data = JUndefined,
                        rq_params = JUndefined, rq_config = JUndefined\<rparr>])"
    and p: "primaryKey this2 = get_prop ?res ''primaryKey''"
    and c: "createdAt this2 = new_Date sample_env (get_prop ?res ''createdAt'')"
    and u: "updatedAt this2 = new_Date sample_env (get_prop ?res ''updatedAt'')"
    by blast
  from p have p': "primaryKey this2 = JStr ''id''" by (simp add: get_prop_def)
  from c have c': "createdAt this2 = JDate (Some 1640995200000)"
    by (simp add: get_prop_def new_Date_def sample_env_def sample_Date_parse_def)
  from u have u': "updatedAt this2 = JDate (Some 1643673600000)"
    by (simp add: get_prop_def new_Date_def sample_env_def sample_Date_parse_def)
  from e2 p' c' u' have b: "\<exists>r this' w'. exec sample_env FetchInfo movies [] = Some (Inr r, this', w')
         \<and> primaryKey this' = JStr ''id''
         \<and> createdAt this' = JDate (Some 1640995200000)
         \<and> updatedAt this' = JDate (Some 1643673600000)"
    by (intro exI conjI)
  from h1 a h2 h3 b show ?thesis by (intro conjI)
qed


section \<open>Waiting for several tasks\<close>

lemma waitForTasks_chain:
  "TaskClient_waitForTasks wait us opts w = (Inr ts, w') \<Longrightarrow>
     length ts = length us \<and>
     (\<exists>ws. length ws = length us + 1 \<and> ws ! 0 = w \<and> ws ! length us = w' \<and>
        (\<forall>k<length us. wait (us ! k) opts (ws ! k) = (Inr (ts ! k), ws ! (k + 1))))"
proof (induction us arbitrary: w ts)
  case Nil
  then show ?case by (auto intro: exI[of _ "[w]"])
next
  case (Cons u us)
  from Cons.prems obtain t w1 ts' where
    1: "wait u opts w = (Inr t, w1)" and
    2: "TaskClient_waitForTasks wait us opts w1 = (Inr ts', w')" and
    3: "ts = t # ts'"
    by (auto split: prod.splits sum.splits)
  from Cons.IH[OF 2] obtain ws where
    l: "length ts' = length us" and lw: "length ws = length us + 1" and
    w0: "ws ! 0 = w1" and wl: "ws ! length us = w'" and
    st: "\<forall>k<length us. wait (us ! k) opts (ws ! k) = (Inr (ts' ! k), ws ! (k + 1))"
    by blast
  have "\<forall>k<length (u # us). wait ((u # us) ! k) opts ((w # ws) ! k) = (Inr (ts ! k), (w # ws) ! (k + 1))"
  proof (intro allI impI)
    fix k assume "k < length (u # us)"
    then show "wait ((u # us) ! k) opts ((w # ws) ! k) = (Inr (ts ! k), (w # ws) ! (k + 1))"
      using 1 3 w0 st by (cases k) simp_all
  qed
  moreover have "length (w # ws) = length (u # us) + 1" using lw by simp
  moreover have "(w # ws) ! 0 = w" by simp
  moreover have "(w # ws) ! length (u # us) = w'" using wl by simp
  moreover have "length ts = length (u # us)" using l 3 by simp
  ultimately show ?case by blast
qed

lemma waitForTasks_succeeds:
  "(\<forall>u w. \<exists>t w'. wait u opts w = (Inr t, w')) \<Longrightarrow>
     \<exists>ts w'. TaskClient_waitForTasks wait us opts w = (Inr ts, w')"
proof (induction us arbitrary: w)
  case Nil
  then show ?case by simp
next
  case (Cons u us)
  from Cons.prems obtain t w1 where 1: "wait u opts w = (Inr t, w1)" by blast
  from Cons.IH[OF Cons.prems] obtain ts w' where
    "TaskClient_waitForTasks wait us opts w1 = (Inr ts, w')" by blast
  with 1 show ?case by simp
qed

lemma waitForTasks_fails_fast:
  "TaskClient_waitForTasks wait us opts w = (Inl e, w') \<Longrightarrow>
     \<exists>k<length us. \<exists>ts ws. TaskClient_waitForTasks wait (take k us) opts w = (Inr ts, ws)
        \<and> wait (us ! k) opts ws = (Inl e, w')"
proof (induction us arbitrary: w)
  case Nil
  then show ?case by simp
next
  case (Cons u us)
  show ?case
  proof (cases "wait u opts w")
    case (Pair r w1)
    show ?thesis
    proof (cases r)
      case (Inl e1)
      with Pair Cons.prems have "wait u opts w = (Inl e, w')" by simp
      then have "TaskClient_waitForTasks wait (take 0 (u # us)) opts w = (Inr [], w)
        \<and> wait ((u # us) ! 0) opts w = (Inl e, w')" by simp
      then show ?thesis by (intro exI[of _ 0]) auto
    next
      case (Inr t)
      with Pair Cons.prems have "TaskClient_waitForTasks wait us opts w1 = (Inl e, w')"
        by (auto split: prod.splits sum.splits)
      from Cons.IH[OF this] obtain k ts ws where k: "k < length us"
        and a: "TaskClient_waitForTasks wait (take k us) opts w1 = (Inr ts, ws)"
        and b: "wait (us ! k) opts ws = (Inl e, w')" by blast
      from a Pair Inr have "TaskClient_waitForTasks wait (take (Suc k) (u # us)) opts w = (Inr (t # ts), ws)"
        by simp
      with b k show ?thesis by (intro exI[of _ "Suc k"]) auto
    qed
  qed
qed

text \<open>
  C3. With the task client's \<^verbatim>\<open>waitForTasks\<close> as the specification describes it,
  \<^verbatim>\<open>Index.waitForTasks\<close> waits for the uids one after the other: the wait for the uid
  at position \<open>k + 1\<close> starts in the world the wait at position \<open>k\<close> left. The tasks it
  returns are as many as the uids, and the one at position \<open>k\<close> is the result of the wait
  for the uid at position \<open>k\<close>, whatever the server did in between. The call returns
  whenever every single wait does.
\<close>

theorem waitForTasks_sequential_in_order:
  assumes "tasks_waitForTasks env = TaskClient_waitForTasks (tasks_waitForTask env)"
  shows "(waitForTasks env this taskUids waitOptions w = (Inr tasks, w') \<longrightarrow>
           length tasks = length taskUids \<and>
           (\<exists>ws. length ws = length taskUids + 1 \<and> ws ! 0 = w \<and> ws ! length taskUids = w' \<and>
              (\<forall>k<length taskUids.
                 tasks_waitForTask env (taskUids ! k)
                   (JObj [(''timeOutMs'', destructure_default waitOptions ''timeOutMs'' (JNum 5000)),
                          (''intervalMs'', destructure_default waitOptions ''intervalMs'' (JNum 50))])
                   (ws ! k) = (Inr (tasks ! k), ws ! (k + 1)))))
       \<and> ((\<forall>u opts v. \<exists>t v'. tasks_waitForTask env u opts v = (Inr t, v')) \<longrightarrow>
           (\<exists>ts v'. waitForTasks env this taskUids waitOptions w = (Inr ts, v')))"
proof (intro conjI impI)
  assume "waitForTasks env this taskUids waitOptions w = (Inr tasks, w')"
  then have "TaskClient_waitForTasks (tasks_waitForTask env) taskUids
       (JObj [(''timeOutMs'', destructure_default waitOptions ''timeOutMs'' (JNum 5000)),
              (''intervalMs'', destructure_default waitOptions ''intervalMs'' (JNum 50))]) w
     = (Inr tasks, w')"
    by (simp add: waitForTasks_def assms)
  from waitForTasks_chain[OF this]
  show "length tasks = length taskUids"
    and "\<exists>ws. length ws = length taskUids + 1 \<and> ws ! 0 = w \<and> ws ! length taskUids = w' \<and>
              (\<forall>k<length taskUids.
                 tasks_waitForTask env (taskUids ! k)
                   (JObj [(''timeOutMs'', destructure_default waitOptions ''timeOutMs'' (JNum 5000)),
                          (''intervalMs'', destructure_default waitOptions ''intervalMs'' (JNum 50))])
                   (ws ! k) = (Inr (tasks ! k), ws ! (k + 1)))"
    by blast+
next
  assume "\<forall>u opts v. \<exists>t v'. tasks_waitForTask env u opts v = (Inr t, v')"
  then have "\<forall>u v. \<exists>t v'. tasks_waitForTask env u
       (JObj [(''timeOutMs'', destructure_default waitOptions ''timeOutMs'' (JNum 5000)),
              (''intervalMs'', destructure_default waitOptions ''intervalMs'' (JNum 50))]) v = (Inr t, v')"
    by blast
  then have "\<exists>ts v'. TaskClient_waitForTasks (tasks_waitForTask env) taskUids
       (JObj [(''timeOutMs'', destructure_default waitOptions ''timeOutMs'' (JNum 5000)),
              (''intervalMs'', destructure_default waitOptions ''intervalMs'' (JNum 50))]) w = (Inr ts, v')"
    by (rule waitForTasks_succeeds)
  then show "\<exists>ts v'. waitForTasks env this taskUids waitOptions w = (Inr ts, v')"
    by (simp add: waitForTasks_def assms)
qed

theorem waitForTasks_sequential_in_order_witness:
  "tasks_waitForTasks sample_env = TaskClient_waitForTasks (tasks_waitForTask sample_env)
   \<and> (\<exists>w'. waitForTasks sample_env movies [JNum 3, JNum 1, JNum 2] None [] =
         (Inr [JObj [(''uid'', JNum 3), (''status'', JStr ''succeeded'')],
               JObj [(''uid'', JNum 1), (''status'', JStr ''succeeded'')],
               JObj [(''uid'', JNum 2), (''status'', JStr ''succeeded'')]], w')
       \<and> map rq_params w' = [JObj [(''uids'', JNum 3)], JObj [(''uids'', JNum 1)], JObj [(''uids'', JNum 2)]])
   \<and> (\<forall>u opts v. \<exists>t v'. tasks_waitForTask sample_env u opts v = (Inr t, v'))
   \<and> (\<exists>ts v'. waitForTasks sample_env movies [JNum 3, JNum 1, JNum 2] None [] = (Inr ts, v')
         \<and> length ts = length [JNum 3, JNum 1, JNum 2])"
proof -
  have h: "tasks_waitForTasks sample_env = TaskClient_waitForTasks (tasks_waitForTask sample_env)"
    by (simp add: sample_env_def)
  have s: "\<forall>u opts v. \<exists>t v'. tasks_waitForTask sample_env u opts v = (Inr t, v')"
    by (simp add: sample_env_def sample_wait_def)
  note t = waitForTasks_sequential_in_order[OF h, of movies "[JNum 3, JNum 1, JNum 2]" None "[]"]
  from t[THEN conjunct2, THEN mp, OF s] obtain ts v' where
    e: "waitForTasks sample_env movies [JNum 3, JNum 1, JNum 2] None [] = (Inr ts, v')" by blast
  from t[of ts v', THEN conjunct1, THEN mp, OF e]
  have l: "length ts = length [JNum 3, JNum 1, JNum 2]" by blast
  have c: "\<exists>w'. waitForTasks sample_env movies [JNum 3, JNum 1, JNum 2] None [] =
         (Inr [JObj [(''uid'', JNum 3), (''status'', JStr ''succeeded'')],
               JObj [(''uid'', JNum 1), (''status'', JStr ''succeeded'')],
               JObj [(''uid'', JNum 2), (''status'', JStr ''succeeded'')]], w')
       \<and> map rq_params w' = [JObj [(''uids'', JNum 3)], JObj [(''uids'', JNum 1)], JObj [(''uids'', JNum 2)]]"
    by (simp add: waitForTasks_def sample_env_def sample_wait_def)
  from e l have "\<exists>ts v'. waitForTasks sample_env movies [JNum 3, JNum 1, JNum 2] None [] = (Inr ts, v')
         \<and> length ts = length [JNum 3, JNum 1, JNum 2]" by blast
  with h c s show ?thesis by (intro conjI)
qed


section \<open>The batch loop\<close>

lemma take_min_length: "take (min a (length ys)) ys = take a ys"
  by (cases "a \<le> length ys") (simp_all add: min_def)

lemma Array_slice_chunk:
  assumes "0 \<le> i" and "0 < b"
  shows "Array_slice xs i (i + b) = take (nat b) (drop (nat i) xs)"
proof (cases "i \<le> int (length xs)")
  case True
  have k: "min i (int (length xs)) = i" using True by simp
  have n: "nat (min (i + b) (int (length xs)) - i) = min (nat b) (length (drop (nat i) xs))"
    using True assms by (cases "i + b \<le> int (length xs)") (simp_all add: min_def, linarith+)
  have "Array_slice xs i (i + b) = take (nat (min (i + b) (int (length xs)) - i)) (drop (nat i) xs)"
    using assms by (simp add: Array_slice_def Let_def k)
  also have "\<dots> = take (nat b) (drop (nat i) xs)"
    by (simp only: n take_min_length)
  finally show ?thesis .
next
  case False
  with assms show ?thesis
    by (simp add: Array_slice_def Let_def)
qed

lemma batch_chunks_Nil: "batch_chunks [] b = []"
  by (cases "b = 0") (simp_all add: batch_chunks_def)

lemma chunk_count_step:
  assumes "0 < n" and "0 < (b::nat)"
  shows "(n + b - 1) div b = Suc ((n - b + b - 1) div b)"
proof (cases "b \<le> n")
  case True
  have e1: "n + b - 1 = (n - 1) + b" using assms by simp
  have e2: "n - b + b - 1 = n - 1" using True by simp
  from assms have nz: "b \<noteq> 0" by simp
  have "((n - 1) + b) div b = (n - 1) div b + 1" by (rule div_add_self2[OF nz])
  then show ?thesis by (simp only: e1 e2 Suc_eq_plus1)
next
  case False
  then have "n - b + b - 1 = b - 1" by simp
  moreover have "(b - 1) div b = 0" using assms by simp
  moreover have "(n + b - 1) div b = 1"
  proof -
    from assms have nz: "b \<noteq> 0" by simp
    have e1: "n + b - 1 = (n - 1) + b" using assms by simp
    have z: "(n - 1) div b = 0" using False assms by simp
    have "((n - 1) + b) div b = (n - 1) div b + 1" by (rule div_add_self2[OF nz])
    then show ?thesis by (simp only: e1 z)
  qed
  ultimately show ?thesis by simp
qed

lemma batch_chunks_Cons:
  assumes "xs \<noteq> []" and "0 < b"
  shows "batch_chunks xs b = take b xs # batch_chunks (drop b xs) b"
proof -
  let ?m = "(length (drop b xs) + b - 1) div b"
  from assms have "(length xs + b - 1) div b = Suc ?m"
    using chunk_count_step[of "length xs" b] by simp
  moreover have "[0..<Suc ?m] = 0 # map Suc [0..<?m]"
    by (simp only: upt_conv_Cons[OF zero_less_Suc] map_Suc_upt)
  ultimately have "batch_chunks xs b = map (\<lambda>k. take b (drop (k * b) xs)) (0 # map Suc [0..<?m])"
    by (simp only: batch_chunks_def)
  also have "\<dots> = take b xs # map (\<lambda>k. take b (drop (k * b) (drop b xs))) [0..<?m]"
    by (simp add: comp_def add.commute)
  finally show ?thesis by (simp add: batch_chunks_def)
qed

lemma collected_step:
  "collected updates
     (case r of (Inl e, w'') \<Rightarrow> (Inl e, w'') | (Inr ts, w'') \<Rightarrow> (Inr (t # ts), w''))
   = collected (updates @ [t]) r"
  by (cases r) (auto simp: collected_def split: sum.splits)

text \<open>For a positive batch size the loop is the sequential sending of the chunks of the
  documents not yet sent; in particular it ends.\<close>

lemma inBatches_loop_chunks:
  assumes "0 < b" and "0 \<le> i"
  shows "inBatches_loop send docs b opts i updates w =
     Some (collected updates
       (send_chunks send (batch_chunks (drop (nat i) docs) (nat b)) opts w))"
  using assms(2)
proof (induction "length docs - nat i" arbitrary: i updates w rule: less_induct)
  case less
  show ?case
  proof (cases "i < int (length docs)")
    case False
    then have "drop (nat i) docs = []" by simp
    with False show ?thesis
      by (subst inBatches_loop.simps) (simp add: batch_chunks_Nil collected_def)
  next
    case True
    with less.prems have ne: "drop (nat i) docs \<noteq> []" by simp
    have sl: "Array_slice docs i (i + b) = take (nat b) (drop (nat i) docs)"
      using less.prems assms(1) by (rule Array_slice_chunk)
    have dr: "drop (nat b) (drop (nat i) docs) = drop (nat (i + b)) docs"
      using less.prems assms(1) by (simp add: nat_add_distrib add.commute)
    have ch: "batch_chunks (drop (nat i) docs) (nat b) =
        take (nat b) (drop (nat i) docs) # batch_chunks (drop (nat (i + b)) docs) (nat b)"
      using batch_chunks_Cons[OF ne, of "nat b"] assms(1) dr by simp
    have smaller: "length docs - nat (i + b) < length docs - nat i"
      using True less.prems assms(1) by linarith
    have nonneg: "0 \<le> i + b" using less.prems assms(1) by simp
    note IH = less.hyps[OF smaller nonneg]
    show ?thesis
    proof (cases "send (take (nat b) (drop (nat i) docs)) opts w")
      case (Pair r w1)
      show ?thesis
      proof (cases r)
        case (Inl e)
        with Pair True show ?thesis
          by (subst inBatches_loop.simps) (simp add: sl ch collected_def)
      next
        case (Inr t)
        with Pair True show ?thesis
          by (subst inBatches_loop.simps) (simp add: sl ch IH collected_step)
      qed
    qed
  qed
qed

text \<open>With a batch size that is not positive, and documents to send, the loop index never
  passes the length of the array: a result, if there is one, is the error of a request, and
  some request must have failed.\<close>

lemma inBatches_loop_stuck:
  assumes "inBatches_loop send docs b opts i updates w = Some y"
  shows "b \<le> 0 \<and> i \<le> 0 \<and> docs \<noteq> [] \<longrightarrow>
     (\<exists>e w'. y = (Inl e, w')) \<and> \<not> (\<forall>c v. \<exists>t v'. send c opts v = (Inr t, v'))"
proof (rule inBatches_loop.raw_induct[where P = "\<lambda>send docs b opts i updates w y.
     b \<le> 0 \<and> i \<le> 0 \<and> docs \<noteq> [] \<longrightarrow>
     (\<exists>e w'. y = (Inl e, w')) \<and> \<not> (\<forall>c v. \<exists>t v'. send c opts v = (Inr t, v'))", OF _ assms])
  fix loop :: "(jsval list \<Rightarrow> jsval \<Rightarrow> World \<Rightarrow> (error + jsval) \<times> World) \<Rightarrow> jsval list \<Rightarrow> int
      \<Rightarrow> jsval \<Rightarrow> int \<Rightarrow> jsval list \<Rightarrow> World \<Rightarrow> ((error + jsval) \<times> World) option"
    and send :: "jsval list \<Rightarrow> jsval \<Rightarrow> World \<Rightarrow> (error + jsval) \<times> World"
    and docs :: "jsval list" and b :: int and opts :: jsval and i :: int
    and updates :: "jsval list" and w :: World and y :: "(error + jsval) \<times> World"
  assume IH: "\<And>s d b' o' i' u' w' y'. loop s d b' o' i' u' w' = Some y' \<Longrightarrow>
      b' \<le> 0 \<and> i' \<le> 0 \<and> d \<noteq> [] \<longrightarrow>
      (\<exists>e w''. y' = (Inl e, w'')) \<and> \<not> (\<forall>c v. \<exists>t v'. s c o' v = (Inr t, v'))"
  assume step: "(if i < int (length docs)
      then case send (Array_slice docs i (i + b)) opts w of
           (Inl e, w') \<Rightarrow> Some (Inl e, w')
           | (Inr t, w') \<Rightarrow> loop send docs b opts (i + b) (updates @ [t]) w'
      else Some (Inr (JArr updates), w)) = Some y"
  show "b \<le> 0 \<and> i \<le> 0 \<and> docs \<noteq> [] \<longrightarrow>
     (\<exists>e w'. y = (Inl e, w')) \<and> \<not> (\<forall>c v. \<exists>t v'. send c opts v = (Inr t, v'))"
  proof (intro impI)
    assume a: "b \<le> 0 \<and> i \<le> 0 \<and> docs \<noteq> []"
    then have lt: "i < int (length docs)" by (cases docs) simp_all
    from step lt have step': "(case send (Array_slice docs i (i + b)) opts w of
           (Inl e, w') \<Rightarrow> Some (Inl e, w')
           | (Inr t, w') \<Rightarrow> loop send docs b opts (i + b) (updates @ [t]) w') = Some y"
      by (simp only: if_True)
    show "(\<exists>e w'. y = (Inl e, w')) \<and> \<not> (\<forall>c v. \<exists>t v'. send c opts v = (Inr t, v'))"
    proof (cases "send (Array_slice docs i (i + b)) opts w")
      case (Pair r w1)
      show ?thesis
      proof (cases r)
        case (Inl e)
        from step' have "y = (Inl e, w1)"
          by (simp only: Pair Inl prod.case sum.case option.inject)
        then have A: "\<exists>e w'. y = (Inl e, w')" by (intro exI)
        have B: "\<not> (\<forall>c v. \<exists>t v'. send c opts v = (Inr t, v'))"
        proof
          assume "\<forall>c v. \<exists>t v'. send c opts v = (Inr t, v')"
          from this[THEN spec, of "Array_slice docs i (i + b)", THEN spec, of w]
          obtain t v' where "send (Array_slice docs i (i + b)) opts w = (Inr t, v')"
            by (elim exE)
          with Pair Inl show False by simp
        qed
        from A B show ?thesis by (rule conjI)
      next
        case (Inr t)
        from step' have "loop send docs b opts (i + b) (updates @ [t]) w1 = Some y"
          by (simp only: Pair Inr prod.case sum.case)
        from IH[OF this] have "b \<le> 0 \<and> i + b \<le> 0 \<and> docs \<noteq> [] \<longrightarrow>
            (\<exists>e w''. y = (Inl e, w'')) \<and> \<not> (\<forall>c v. \<exists>t v'. send c opts v = (Inr t, v'))" .
        moreover from a have "b \<le> 0 \<and> i + b \<le> 0 \<and> docs \<noteq> []" by simp
        ultimately show ?thesis by (rule mp)
      qed
    qed
  qed
qed

lemma inBatches_loop_diverges:
  assumes "b \<le> 0" and "docs \<noteq> []" and "\<forall>c v. \<exists>t v'. send c opts v = (Inr t, v')"
  shows "inBatches_loop send docs b opts 0 [] w = None"
proof (cases "inBatches_loop send docs b opts 0 [] w")
  case None
  then show ?thesis .
next
  case (Some y)
  from inBatches_loop_stuck[OF Some] assms(1,2)
  have "\<not> (\<forall>c v. \<exists>t v'. send c opts v = (Inr t, v'))" by simp
  with assms(3) show ?thesis by (rule notE[rotated])
qed


section \<open>Batch ingestion\<close>

lemma new_EnqueuedTask_object: "\<exists>t. new_EnqueuedTask env (JObj obj) = Inr t"
  by (simp add: new_EnqueuedTask_def bind_err_def read_prop_def)

lemma addDocuments_answered:
  assumes "answers_objects env"
  shows "\<exists>resp t. transport env w (chunk_request POST this opts c) = Inr resp
           \<and> new_EnqueuedTask env resp = Inr t
           \<and> addDocuments env this c opts w = (Inr t, w @ [chunk_request POST this opts c])"
proof -
  from assms obtain obj where r: "transport env w (chunk_request POST this opts c) = Inr (JObj obj)"
    unfolding answers_objects_def by blast
  obtain t where t: "new_EnqueuedTask env (JObj obj) = Inr t"
    using new_EnqueuedTask_object by blast
  from r t have "addDocuments env this c opts w = (Inr t, w @ [chunk_request POST this opts c])"
    by (simp add: addDocuments_def after_def httpRequest_post_def http_send_def chunk_request_def)
  with r t show ?thesis by blast
qed

lemma updateDocuments_answered:
  assumes "answers_objects env"
  shows "\<exists>resp t. transport env w (chunk_request PUT this opts c) = Inr resp
           \<and> new_EnqueuedTask env resp = Inr t
           \<and> updateDocuments env this c opts w = (Inr t, w @ [chunk_request PUT this opts c])"
proof -
  from assms obtain obj where r: "transport env w (chunk_request PUT this opts c) = Inr (JObj obj)"
    unfolding answers_objects_def by blast
  obtain t where t: "new_EnqueuedTask env (JObj obj) = Inr t"
    using new_EnqueuedTask_object by blast
  from r t have "updateDocuments env this c opts w = (Inr t, w @ [chunk_request PUT this opts c])"
    by (simp add: updateDocuments_def after_def httpRequest_put_def http_send_def chunk_request_def)
  with r t show ?thesis by blast
qed

lemma send_chunks_answered:
  assumes "\<And>c w. \<exists>resp t. transport env w (req c) = Inr resp
           \<and> new_EnqueuedTask env resp = Inr t
           \<and> send c opts w = (Inr t, w @ [req c])"
  shows "\<exists>ts. send_chunks send cs opts w = (Inr ts, w @ map req cs)
           \<and> length ts = length cs
           \<and> (\<forall>k<length cs. \<exists>resp. transport env (w @ take k (map req cs)) (req (cs ! k)) = Inr resp
                  \<and> new_EnqueuedTask env resp = Inr (ts ! k))"
proof (induction cs arbitrary: w)
  case Nil
  then show ?case by simp
next
  case (Cons c cs)
  from assms[of w c] obtain resp t where
    r: "transport env w (req c) = Inr resp" and t: "new_EnqueuedTask env resp = Inr t"
    and s: "send c opts w = (Inr t, w @ [req c])" by blast
  from Cons.IH[of "w @ [req c]"] obtain ts where
    1: "send_chunks send cs opts (w @ [req c]) = (Inr ts, (w @ [req c]) @ map req cs)"
    and 2: "length ts = length cs"
    and 3: "\<forall>k<length cs. \<exists>resp. transport env ((w @ [req c]) @ take k (map req cs)) (req (cs ! k)) = Inr resp
                  \<and> new_EnqueuedTask env resp = Inr (ts ! k)" by blast
  have a: "send_chunks send (c # cs) opts w = (Inr (t # ts), w @ map req (c # cs))"
    using s 1 by simp
  have b: "length (t # ts) = length (c # cs)" using 2 by simp
  have c: "\<forall>k<length (c # cs). \<exists>resp. transport env (w @ take k (map req (c # cs))) (req ((c # cs) ! k)) = Inr resp
                  \<and> new_EnqueuedTask env resp = Inr ((t # ts) ! k)"
  proof (intro allI impI)
    fix k assume k: "k < length (c # cs)"
    show "\<exists>resp. transport env (w @ take k (map req (c # cs))) (req ((c # cs) ! k)) = Inr resp
                  \<and> new_EnqueuedTask env resp = Inr ((t # ts) ! k)"
    proof (cases k)
      case 0
      with r t show ?thesis by simp
    next
      case (Suc j)
      with k have "j < length cs" by simp
      with 3 obtain resp' where
        "transport env ((w @ [req c]) @ take j (map req cs)) (req (cs ! j)) = Inr resp'"
        "new_EnqueuedTask env resp' = Inr (ts ! j)" by blast
      with Suc show ?thesis by simp
    qed
  qed
  from a b c show ?case by blast
qed

lemma concat_batch_chunks:
  assumes "0 < b"
  shows "concat (batch_chunks xs b) = xs"
proof (induction "length xs" arbitrary: xs rule: less_induct)
  case less
  show ?case
  proof (cases "xs = []")
    case True
    then show ?thesis by (simp add: batch_chunks_Nil)
  next
    case False
    with assms have "length (drop b xs) < length xs" by simp
    from less.hyps[OF this] have "concat (batch_chunks (drop b xs) b) = drop b xs" .
    with batch_chunks_Cons[OF False assms] show ?thesis by simp
  qed
qed

lemma length_batch_chunks: "length (batch_chunks xs b) = (length xs + b - 1) div b"
  by (simp add: batch_chunks_def)

lemma nth_batch_chunks:
  "k < length (batch_chunks xs b) \<Longrightarrow> batch_chunks xs b ! k = take b (drop (k * b) xs)"
  by (simp add: batch_chunks_def)

lemma full_batch_chunks:
  assumes "Suc k < length (batch_chunks xs b)"
  shows "length (batch_chunks xs b ! k) = b"
proof (cases "b = 0")
  case True
  with assms show ?thesis by (simp add: batch_chunks_def)
next
  case False
  let ?m = "(length xs + b - 1) div b"
  from assms have m: "Suc (Suc k) \<le> ?m" by (simp add: length_batch_chunks)
  then have "Suc (Suc k) * b \<le> ?m * b" by (rule mult_le_mono1)
  also have "\<dots> \<le> length xs + b - 1" by (rule div_times_less_eq_dividend)
  finally have "Suc k * b + b \<le> length xs + b - 1" by simp
  with False have "Suc k * b \<le> length xs" by simp
  then have "b \<le> length xs - k * b" by simp
  moreover from assms have "batch_chunks xs b ! k = take b (drop (k * b) xs)"
    by (simp add: nth_batch_chunks)
  ultimately show ?thesis by simp
qed

lemma batches_of_chunks:
  assumes "0 < b"
    and "\<And>c w. \<exists>resp t. transport env w (req c) = Inr resp
           \<and> new_EnqueuedTask env resp = Inr t
           \<and> send c opts w = (Inr t, w @ [req c])"
  shows "\<exists>tasks. inBatches_loop send docs b opts 0 [] w =
             Some (Inr (JArr tasks), w @ map req (batch_chunks docs (nat b)))
           \<and> length tasks = length (batch_chunks docs (nat b))
           \<and> (\<forall>k<length (batch_chunks docs (nat b)).
                 \<exists>resp. transport env (w @ take k (map req (batch_chunks docs (nat b))))
                          (req (batch_chunks docs (nat b) ! k)) = Inr resp
                  \<and> new_EnqueuedTask env resp = Inr (tasks ! k))"
proof -
  from send_chunks_answered[of env req send opts "batch_chunks docs (nat b)" w, OF assms(2)]
  obtain ts where
    1: "send_chunks send (batch_chunks docs (nat b)) opts w =
          (Inr ts, w @ map req (batch_chunks docs (nat b)))"
    and 2: "length ts = length (batch_chunks docs (nat b))"
    and 3: "\<forall>k<length (batch_chunks docs (nat b)).
                 \<exists>resp. transport env (w @ take k (map req (batch_chunks docs (nat b))))
                          (req (batch_chunks docs (nat b) ! k)) = Inr resp
                  \<and> new_EnqueuedTask env resp = Inr (ts ! k)"
    by blast
  have "inBatches_loop send docs b opts 0 [] w =
      Some (collected [] (send_chunks send (batch_chunks (drop (nat 0) docs) (nat b)) opts w))"
    using assms(1) by (rule inBatches_loop_chunks) simp
  with 1 have "inBatches_loop send docs b opts 0 [] w =
             Some (Inr (JArr ts), w @ map req (batch_chunks docs (nat b)))"
    by (simp add: collected_def)
  with 2 3 show ?thesis by blast
qed

text \<open>
  C2. With a positive batch size \<open>b\<close> (1000 when none is given) and a server that answers
  every request, \<^verbatim>\<open>addDocumentsInBatches\<close> sends exactly one \<open>POST\<close> per chunk, in
  chunk order, each after the answer to the one before, and returns the enqueued tasks
  built from the answers, in that order; \<^verbatim>\<open>updateDocumentsInBatches\<close> does the same
  with \<open>PUT\<close>. The chunks are the \<open>ceil(n/b)\<close> slices \<open>[k*b, k*b+b)\<close> of the documents:
  together they are the documents, and every chunk but the last has \<open>b\<close> elements.
\<close>

theorem batches_chunked_in_order:
  assumes "0 < b" and "b = (case batchSize of None \<Rightarrow> 1000 | Some s \<Rightarrow> s)"
    and "answers_objects env"
  shows "(\<exists>tasks. addDocumentsInBatches env this docs batchSize options w =
             Some (Inr (JArr tasks),
                   w @ map (chunk_request POST this options) (batch_chunks docs (nat b)))
           \<and> length tasks = length (batch_chunks docs (nat b))
           \<and> (\<forall>k<length (batch_chunks docs (nat b)).
                 \<exists>resp. transport env
                          (w @ take k (map (chunk_request POST this options) (batch_chunks docs (nat b))))
                          (chunk_request POST this options (batch_chunks docs (nat b) ! k)) = Inr resp
                  \<and> new_EnqueuedTask env resp = Inr (tasks ! k)))
       \<and> (\<exists>tasks. updateDocumentsInBatches env this docs batchSize options w =
             Some (Inr (JArr tasks),
                   w @ map (chunk_request PUT this options) (batch_chunks docs (nat b)))
           \<and> length tasks = length (batch_chunks docs (nat b))
           \<and> (\<forall>k<length (batch_chunks docs (nat b)).
                 \<exists>resp. transport env
                          (w @ take k (map (chunk_request PUT this options) (batch_chunks docs (nat b))))
                          (chunk_request PUT this options (batch_chunks docs (nat b) ! k)) = Inr resp
                  \<and> new_EnqueuedTask env resp = Inr (tasks ! k)))
       \<and> length (batch_chunks docs (nat b)) = (length docs + nat b - 1) div nat b
       \<and> (\<forall>k<length (batch_chunks docs (nat b)).
             batch_chunks docs (nat b) ! k = take (nat b) (drop (k * nat b) docs))
       \<and> concat (batch_chunks docs (nat b)) = docs
       \<and> (\<forall>k. Suc k < length (batch_chunks docs (nat b)) \<longrightarrow>
             length (batch_chunks docs (nat b) ! k) = nat b)"
proof (intro conjI)
  show "\<exists>tasks. addDocumentsInBatches env this docs batchSize options w =
             Some (Inr (JArr tasks),
                   w @ map (chunk_request POST this options) (batch_chunks docs (nat b)))
           \<and> length tasks = length (batch_chunks docs (nat b))
           \<and> (\<forall>k<length (batch_chunks docs (nat b)).
                 \<exists>resp. transport env
                          (w @ take k (map (chunk_request POST this options) (batch_chunks docs (nat b))))
                          (chunk_request POST this options (batch_chunks docs (nat b) ! k)) = Inr resp
                  \<and> new_EnqueuedTask env resp = Inr (tasks ! k))"
    unfolding addDocumentsInBatches_def assms(2)[symmetric]
    by (rule batches_of_chunks[OF assms(1)]) (rule addDocuments_answered[OF assms(3)])
  show "\<exists>tasks. updateDocumentsInBatches env this docs batchSize options w =
             Some (Inr (JArr tasks),
                   w @ map (chunk_request PUT this options) (batch_chunks docs (nat b)))
           \<and> length tasks = length (batch_chunks docs (nat b))
           \<and> (\<forall>k<length (batch_chunks docs (nat b)).
                 \<exists>resp. transport env
                          (w @ take k (map (chunk_request PUT this options) (batch_chunks docs (nat b))))
                          (chunk_request PUT this options (batch_chunks docs (nat b) ! k)) = Inr resp
                  \<and> new_EnqueuedTask env resp = Inr (tasks ! k))"
    unfolding updateDocumentsInBatches_def assms(2)[symmetric]
    by (rule batches_of_chunks[OF assms(1)]) (rule updateDocuments_answered[OF assms(3)])
  show "length (batch_chunks docs (nat b)) = (length docs + nat b - 1) div nat b"
    by (rule length_batch_chunks)
  show "\<forall>k<length (batch_chunks docs (nat b)).
             batch_chunks docs (nat b) ! k = take (nat b) (drop (k * nat b) docs)"
    by (simp add: nth_batch_chunks)
  show "concat (batch_chunks docs (nat b)) = docs"
    using assms(1) by (simp add: concat_batch_chunks)
  show "\<forall>k. Suc k < length (batch_chunks docs (nat b)) \<longrightarrow>
             length (batch_chunks docs (nat b) ! k) = nat b"
    by (simp add: full_batch_chunks)
qed


lemma sample_answers_objects: "answers_objects sample_env"
  by (simp add: answers_objects_def sample_env_def sample_transport_def)

lemma five_in_twos:
  "batch_chunks [JNum 1, JNum 2, JNum 3, JNum 4, JNum 5] (nat 2) =
     [[JNum 1, JNum 2], [JNum 3, JNum 4], [JNum 5]]"
  by code_simp

theorem batches_chunked_in_order_witness:
  "(0::int) < 2 \<and> (2::int) = (case Some 2 of None \<Rightarrow> 1000 | Some s \<Rightarrow> s)
   \<and> answers_objects sample_env
   \<and> (\<exists>tasks. addDocumentsInBatches sample_env movies
                  [JNum 1, JNum 2, JNum 3, JNum 4, JNum 5] (Some 2) JUndefined [] =
         Some (Inr (JArr tasks),
               [\<lparr>rq_method = POST, rq_url = ''indexes/movies/documents'',
                  rq_data = JArr [JNum 1, JNum 2], rq_params = JUndefined, rq_config = JUndefined\<rparr>,
                \<lparr>rq_method = POST, rq_url = ''indexes/movies/documents'',
                  rq_data = JArr [JNum 3, JNum 4], rq_params = JUndefined, rq_config = JUndefined\<rparr>,
                \<lparr>rq_method = POST, rq_url = ''indexes/movies/documents'',
                  rq_data = JArr [JNum 5], rq_params = JUndefined, rq_config = JUndefined\<rparr>])
       \<and> length tasks = 3)"
proof -
  have h1: "(0::int) < 2" by simp
  have h2: "(2::int) = (case Some 2 of None \<Rightarrow> 1000 | Some s \<Rightarrow> s)" by simp
  from batches_chunked_in_order[OF h1 h2 sample_answers_objects, of movies
      "[JNum 1, JNum 2, JNum 3, JNum 4, JNum 5]" JUndefined "[]", THEN conjunct1]
  obtain tasks where
    1: "addDocumentsInBatches sample_env movies [JNum 1, JNum 2, JNum 3, JNum 4, JNum 5] (Some 2)
          JUndefined [] =
        Some (Inr (JArr tasks),
              [] @ map (chunk_request POST movies JUndefined)
                (batch_chunks [JNum 1, JNum 2, JNum 3, JNum 4, JNum 5] (nat 2)))"
    and 2: "length tasks = length (batch_chunks [JNum 1, JNum 2, JNum 3, JNum 4, JNum 5] (nat 2))"
    by blast
  from 2 have l: "length tasks = 3" by (simp only: five_in_twos) simp
  from 1 have s: "addDocumentsInBatches sample_env movies
                  [JNum 1, JNum 2, JNum 3, JNum 4, JNum 5] (Some 2) JUndefined [] =
         Some (Inr (JArr tasks),
               [\<lparr>rq_method = POST, rq_url = ''indexes/movies/documents'',
                  rq_data = JArr [JNum 1, JNum 2], rq_params = JUndefined, rq_config = JUndefined\<rparr>,
                \<lparr>rq_method = POST, rq_url = ''indexes/movies/documents'',
                  rq_data = JArr [JNum 3, JNum 4], rq_params = JUndefined, rq_config = JUndefined\<rparr>,
                \<lparr>rq_method = POST, rq_url = ''indexes/movies/documents'',
                  rq_data = JArr [JNum 5], rq_params = JUndefined, rq_config = JUndefined\<rparr>])"
    by (simp only: five_in_twos) (simp add: chunk_request_def movies_def)
  from s l have "\<exists>tasks. addDocumentsInBatches sample_env movies
                  [JNum 1, JNum 2, JNum 3, JNum 4, JNum 5] (Some 2) JUndefined [] =
         Some (Inr (JArr tasks),
               [\<lparr>rq_method = POST, rq_url = ''indexes/movies/documents'',
                  rq_data = JArr [JNum 1, JNum 2], rq_params = JUndefined, rq_config = JUndefined\<rparr>,
                \<lparr>rq_method = POST, rq_url = ''indexes/movies/documents'',
                  rq_data = JArr [JNum 3, JNum 4], rq_params = JUndefined, rq_config = JUndefined\<rparr>,
                \<lparr>rq_method = POST, rq_url = ''indexes/movies/documents'',
                  rq_data = JArr [JNum 5], rq_params = JUndefined, rq_config = JUndefined\<rparr>])
       \<and> length tasks = 3"
    by (intro exI conjI)
  with h1 h2 sample_answers_objects show ?thesis by (intro conjI)
qed


section \<open>Termination of batch ingestion\<close>

lemma inBatches_loop_returns:
  assumes "0 < b"
  shows "\<exists>r. inBatches_loop send docs b opts 0 [] w = Some r"
  using inBatches_loop_chunks[OF assms, of 0 send docs opts "[]" w] by simp

lemma inBatches_loop_no_value:
  assumes "b \<le> 0" and "docs \<noteq> []"
  shows "inBatches_loop send docs b opts 0 [] w \<noteq> Some (Inr ts, w')"
proof
  assume "inBatches_loop send docs b opts 0 [] w = Some (Inr ts, w')"
  from inBatches_loop_stuck[OF this] assms have "\<exists>e v. (Inr ts, w') = (Inl e, v)" by simp
  then show False by simp
qed

lemma addDocuments_always:
  "answers_objects env \<Longrightarrow> \<forall>c v. \<exists>t v'. addDocuments env this c opts v = (Inr t, v')"
  using addDocuments_answered by blast

lemma updateDocuments_always:
  "answers_objects env \<Longrightarrow> \<forall>c v. \<exists>t v'. updateDocuments env this c opts v = (Inr t, v')"
  using updateDocuments_answered by blast

lemma inBatches_loop_round:
  assumes "i < int (length docs)"
    and "send (Array_slice docs i (i + b)) opts w = (Inr t, w')"
  shows "inBatches_loop send docs b opts i updates w =
         inBatches_loop send docs b opts (i + b) (updates @ [t]) w'"
  using assms by (subst inBatches_loop.simps) simp

lemma loop_index_eq: "loop_index b k = int k * b"
  by (induction k) (simp_all add: algebra_simps)

lemma loop_index_stuck:
  assumes "b \<le> 0" and "docs \<noteq> []"
  shows "loop_index b k \<le> 0 \<and> loop_index b k < int (length docs)"
proof -
  have "int k * b \<le> 0" using assms(1) by (simp add: mult_nonneg_nonpos)
  moreover have "0 < int (length docs)" using assms(2) by simp
  ultimately show ?thesis unfolding loop_index_eq by linarith
qed

text \<open>
  C9. With a positive batch size both batch methods end, whatever the documents and
  whatever the server answers. With a batch size that is zero or negative and at least one
  document, the loop index is never above 0 and so never reaches the length of the array,
  at any round: neither method ever returns its array of tasks, and while the server answers every request neither returns
  at all. (Only the error of a failed request ends such a call.)
\<close>

theorem batches_terminate_only_for_positive_size:
  "(0 < b \<longrightarrow>
      (\<exists>r. addDocumentsInBatches env this docs (Some b) options w = Some r)
      \<and> (\<exists>r. updateDocumentsInBatches env this docs (Some b) options w = Some r))
   \<and> (b \<le> 0 \<and> docs \<noteq> [] \<longrightarrow>
      (\<forall>k. loop_index b k \<le> 0 \<and> loop_index b k < int (length docs))
      \<and> (\<forall>ts w'. addDocumentsInBatches env this docs (Some b) options w \<noteq> Some (Inr ts, w'))
      \<and> (\<forall>ts w'. updateDocumentsInBatches env this docs (Some b) options w \<noteq> Some (Inr ts, w')))
   \<and> (b \<le> 0 \<and> docs \<noteq> [] \<and> answers_objects env \<longrightarrow>
      addDocumentsInBatches env this docs (Some b) options w = None
      \<and> updateDocumentsInBatches env this docs (Some b) options w = None)"
proof (intro conjI impI allI)
  assume p: "0 < b"
  show "\<exists>r. addDocumentsInBatches env this docs (Some b) options w = Some r"
    unfolding addDocumentsInBatches_def option.case by (rule inBatches_loop_returns[OF p])
  show "\<exists>r. updateDocumentsInBatches env this docs (Some b) options w = Some r"
    unfolding updateDocumentsInBatches_def option.case by (rule inBatches_loop_returns[OF p])
next
  fix k
  assume "b \<le> 0 \<and> docs \<noteq> []"
  then have b: "b \<le> 0" and d: "docs \<noteq> []" by simp_all
  from loop_index_stuck[OF b d, of k]
  show "loop_index b k \<le> 0" and "loop_index b k < int (length docs)" by simp_all
next
  fix ts w'
  assume "b \<le> 0 \<and> docs \<noteq> []"
  then have b: "b \<le> 0" and d: "docs \<noteq> []" by simp_all
  show "addDocumentsInBatches env this docs (Some b) options w \<noteq> Some (Inr ts, w')"
    unfolding addDocumentsInBatches_def option.case by (rule inBatches_loop_no_value[OF b d])
  show "updateDocumentsInBatches env this docs (Some b) options w \<noteq> Some (Inr ts, w')"
    unfolding updateDocumentsInBatches_def option.case by (rule inBatches_loop_no_value[OF b d])
next
  assume a: "b \<le> 0 \<and> docs \<noteq> [] \<and> answers_objects env"
  then have b: "b \<le> 0" and d: "docs \<noteq> []" and o: "answers_objects env" by simp_all
  show "addDocumentsInBatches env this docs (Some b) options w = None"
    unfolding addDocumentsInBatches_def option.case
    by (rule inBatches_loop_diverges[OF b d addDocuments_always[OF o]])
  show "updateDocumentsInBatches env this docs (Some b) options w = None"
    unfolding updateDocumentsInBatches_def option.case
    by (rule inBatches_loop_diverges[OF b d updateDocuments_always[OF o]])
qed

theorem batches_terminate_only_for_positive_size_witness:
  "(0::int) < 2
   \<and> (\<exists>r. addDocumentsInBatches sample_env movies [JNum 1, JNum 2, JNum 3] (Some 2) JUndefined [] = Some r)
   \<and> (0::int) \<le> 0 \<and> [JNum 1] \<noteq> [] \<and> answers_objects sample_env
   \<and> addDocumentsInBatches sample_env movies [JNum 1] (Some 0) JUndefined [] = None
   \<and> updateDocumentsInBatches sample_env movies [JNum 1] (Some 0) JUndefined [] = None
   \<and> (\<forall>ts w'. addDocumentsInBatches down_env movies [JNum 1] (Some 0) JUndefined []
         \<noteq> Some (Inr ts, w'))"
proof -
  have h1: "(0::int) < 2" by simp
  have h2: "(0::int) \<le> 0 \<and> [JNum 1] \<noteq> [] \<and> answers_objects sample_env"
    by (simp add: sample_answers_objects)
  have h3: "(0::int) \<le> 0 \<and> [JNum 1] \<noteq> []" by simp
  note t = batches_terminate_only_for_positive_size
  from t[of 2 sample_env movies "[JNum 1, JNum 2, JNum 3]" JUndefined "[]", THEN conjunct1,
      THEN mp, OF h1]
  have a: "\<exists>r. addDocumentsInBatches sample_env movies [JNum 1, JNum 2, JNum 3] (Some 2) JUndefined [] = Some r"
    by (rule conjunct1)
  from t[of 0 sample_env movies "[JNum 1]" JUndefined "[]", THEN conjunct2, THEN conjunct2,
      THEN mp, OF h2]
  have b: "addDocumentsInBatches sample_env movies [JNum 1] (Some 0) JUndefined [] = None"
    and c: "updateDocumentsInBatches sample_env movies [JNum 1] (Some 0) JUndefined [] = None"
    by (rule conjunct1, rule conjunct2)
  from t[of 0 down_env movies "[JNum 1]" JUndefined "[]", THEN conjunct2, THEN conjunct1,
      THEN mp, OF h3]
  have d: "\<forall>ts w'. addDocumentsInBatches down_env movies [JNum 1] (Some 0) JUndefined []
         \<noteq> Some (Inr ts, w')"
    by (rule conjunct1[OF conjunct2])
  from h1 a h2 b c d show ?thesis by simp
qed

text \<open>When the transport is down, the call with batch size 0 does end: with the error of
  its first request.\<close>

lemma batch_size_zero_fails_when_down:
  "addDocumentsInBatches down_env movies [JNum 1] (Some 0) JUndefined [] =
     Some (Inl (Rejected (JStr ''unreachable'')),
           [\<lparr>rq_method = POST, rq_url = ''indexes/movies/documents'', rq_data = JArr [],
              rq_params = JUndefined, rq_config = JUndefined\<rparr>])"
  unfolding addDocumentsInBatches_def option.case
  by (subst inBatches_loop.simps)
     (simp add: addDocuments_def after_def httpRequest_post_def http_send_def down_env_def
        movies_def Array_slice_def)

end
